theory Spec2Isabelle
  imports Complex_Main "HOL-Library.Word"
begin

section \<open>JavaScript values used by the location picker\<close>

subsection \<open>Strings\<close>

text \<open>
  A JavaScript string is a sequence of UTF-16 code units. The regular expression in
  \<open>sanitiseAddress\<close> has no \<open>u\<close> flag, and \<open>trim\<close>, \<open>slice\<close> and \<open>length\<close> all
  work on code units, so a string is a list of 16-bit words.
\<close>

type_synonym jsstring = "16 word list"

definition ascii :: "string \<Rightarrow> jsstring" where
  "ascii s = map of_char s"

text \<open>
  White space and line terminators of ECMAScript, the characters \<open>String.prototype.trim\<close>
  removes: TAB, LF, VT, FF, CR, SP, NBSP, U+1680, U+2000..U+200A, U+2028, U+2029, U+202F,
  U+205F, U+3000 and U+FEFF.
\<close>

definition is_js_whitespace :: "16 word \<Rightarrow> bool" where
  "is_js_whitespace c =
     ((0x0009 \<le> c \<and> c \<le> 0x000D) \<or> c = 0x0020 \<or> c = 0x00A0 \<or> c = 0x1680 \<or>
      (0x2000 \<le> c \<and> c \<le> 0x200A) \<or> c = 0x2028 \<or> c = 0x2029 \<or> c = 0x202F \<or>
      c = 0x205F \<or> c = 0x3000 \<or> c = 0xFEFF)"

definition trim :: "jsstring \<Rightarrow> jsstring" where
  "trim s = rev (dropWhile is_js_whitespace (rev (dropWhile is_js_whitespace s)))"

definition is_digit :: "16 word \<Rightarrow> bool" where
  \<comment> \<open>the characters \<open>0\<close> to \<open>9\<close>\<close>
  "is_digit c = (48 \<le> c \<and> c \<le> 57)"

text \<open>\<open>parts.join(", ")\<close> on an array of strings.\<close>

fun join :: "jsstring \<Rightarrow> jsstring list \<Rightarrow> jsstring" where
  "join sep [] = []"
| "join sep [x] = x"
| "join sep (x # y # ys) = x @ sep @ join sep (y # ys)"

text \<open>
  Truthiness of an optional string property (\<open>if (props.name)\<close>): \<open>undefined\<close> and the
  empty string are falsy.
\<close>

fun truthy :: "jsstring option \<Rightarrow> bool" where
  "truthy None = False"
| "truthy (Some s) = (s \<noteq> [])"

subsection \<open>Numbers\<close>

text \<open>
  A JavaScript number is an IEEE 754 double: \<open>NaN\<close>, an infinity, or a finite dyadic
  value \<open>m * 2 ^ e\<close>, kept as the integer pair \<open>Fin m e\<close>. The two zeros are not told
  apart (no operation of the component can). Arithmetic on finite values is exact integer
  arithmetic on ratios \<open>(p, q)\<close> with \<open>0 < q\<close>.
\<close>

datatype jsnum = NaN | PosInf | NegInf | Fin int int

type_synonym ratio = "int \<times> int"

definition ratio_of :: "int \<Rightarrow> int \<Rightarrow> ratio" where
  "ratio_of m e = (if 0 \<le> e then (m * 2 ^ nat e, 1) else (m, 2 ^ nat (- e)))"

definition scale :: "int \<Rightarrow> ratio \<Rightarrow> int \<Rightarrow> ratio" where
  \<comment> \<open>\<open>r * b ^ p\<close> for an integer power \<open>p\<close> of either sign\<close>
  "scale b r p = (if 0 \<le> p then (fst r * b ^ nat p, snd r) else (fst r, snd r * b ^ nat (- p)))"

definition ratio_floor :: "ratio \<Rightarrow> int" where
  "ratio_floor r = fst r div snd r"

definition ratio_less :: "ratio \<Rightarrow> ratio \<Rightarrow> bool" where
  "ratio_less r1 r2 = (fst r1 * snd r2 < fst r2 * snd r1)"

definition ratio_dist :: "ratio \<Rightarrow> ratio \<Rightarrow> ratio" where
  "ratio_dist r1 r2 = (\<bar>fst r1 * snd r2 - fst r2 * snd r1\<bar>, snd r1 * snd r2)"

definition num_value :: "jsnum \<Rightarrow> real option" where
  \<comment> \<open>the mathematical value of a finite number\<close>
  "num_value x = (case x of Fin m e \<Rightarrow> Some (of_int m * 2 powi e) | _ \<Rightarrow> None)"

text \<open>
  \<open>Number::lessThan\<close> of ECMAScript; \<open>None\<close> is its result \<open>undefined\<close>, returned when
  an operand is \<open>NaN\<close>. \<open>a >= b\<close> and \<open>a <= b\<close> are false when the comparison is
  undefined.
\<close>

fun Number_lessThan :: "jsnum \<Rightarrow> jsnum \<Rightarrow> bool option" where
  "Number_lessThan NaN y = None"
| "Number_lessThan x NaN = None"
| "Number_lessThan PosInf y = Some False"
| "Number_lessThan x PosInf = Some True"
| "Number_lessThan x NegInf = Some False"
| "Number_lessThan NegInf y = Some True"
| "Number_lessThan (Fin m e) (Fin m' e') = Some (ratio_less (ratio_of m e) (ratio_of m' e'))"

definition js_ge :: "jsnum \<Rightarrow> jsnum \<Rightarrow> bool" where
  "js_ge a b = (Number_lessThan a b = Some False)"

definition js_le :: "jsnum \<Rightarrow> jsnum \<Rightarrow> bool" where
  "js_le a b = (Number_lessThan b a = Some False)"

fun isFinite :: "jsnum \<Rightarrow> bool" where
  "isFinite (Fin m e) = True"
| "isFinite x = False"

fun js_negate :: "jsnum \<Rightarrow> jsnum" where
  "js_negate NaN = NaN"
| "js_negate PosInf = NegInf"
| "js_negate NegInf = PosInf"
| "js_negate (Fin m e) = Fin (- m) e"

text \<open>
  Rounding a positive ratio to the nearest double, ties to even: the rounding ECMAScript
  applies to every numeric literal and to the digits tried by \<open>Number::toString\<close>. A
  double has 53 bits of mantissa and a minimal exponent of \<open>-1074\<close>; values from
  \<open>2 ^ 1024\<close> on overflow to infinity. The result is normalised to an odd mantissa, so
  that equal doubles are equal terms. \<open>ndigits b n\<close> is the number of digits of \<open>n\<close> in
  base \<open>b\<close>, and \<open>floor_log b r\<close> the integer logarithm of a positive ratio.
\<close>

function ndigits :: "int \<Rightarrow> int \<Rightarrow> int" where
  "ndigits b n = (if b < 2 \<or> n \<le> 0 then 0 else 1 + ndigits b (n div b))"
  by pat_completeness auto
termination
  by (relation "measure (\<lambda>(b, n). nat n)") (auto intro: int_div_less_self)

declare ndigits.simps [simp del]

definition floor_log :: "int \<Rightarrow> ratio \<Rightarrow> int" where
  "floor_log b r =
     (if snd r \<le> fst r then ndigits b (ratio_floor r) - 1
      else (let l = ndigits b (ratio_floor (snd r, fst r))
            in if snd r \<le> fst r * b ^ nat (l - 1) then 1 - l else - l))"

definition round_half_even :: "ratio \<Rightarrow> int" where
  "round_half_even r =
     (let f = ratio_floor r; d = 2 * (fst r mod snd r)
      in if d < snd r then f else if snd r < d then f + 1 else if even f then f else f + 1)"

function norm_odd :: "int \<Rightarrow> int \<Rightarrow> jsnum" where
  "norm_odd m e = (if m = 0 then Fin 0 0 else if even m then norm_odd (m div 2) (e + 1) else Fin m e)"
  by pat_completeness auto
termination
  by (relation "measure (\<lambda>(m, e). nat \<bar>m\<bar>)") auto

declare norm_odd.simps [simp del]

definition round_pos :: "ratio \<Rightarrow> jsnum" where
  "round_pos r =
     (let e = max (floor_log 2 r - 52) (- 1074);
          m = round_half_even (scale 2 r (- e))
      in if 0 \<le> e \<and> 2 ^ 1024 \<le> m * 2 ^ nat e then PosInf else norm_odd m e)"

definition round_double :: "ratio \<Rightarrow> jsnum" where
  "round_double r =
     (if fst r = 0 then Fin 0 0
      else if 0 < fst r then round_pos r
      else js_negate (round_pos (- fst r, snd r)))"

text \<open>
  \<open>Number::toString\<close> (radix 10): the shortest digit string \<open>s\<close> of \<open>k\<close> digits and
  the decimal exponent \<open>n\<close> with \<open>s * 10 ^ (n - k)\<close> rounding to the number; among
  several, the one closest to it. The search tries \<open>k = 1, 2, ...\<close>; 17 digits always
  suffice for a double.
\<close>

function digits10 :: "int \<Rightarrow> jsstring" where
  "digits10 n = (if n < 10 then [of_int (48 + n)] else digits10 (n div 10) @ [of_int (48 + n mod 10)])"
  by pat_completeness auto
termination
  by (relation "measure nat") (auto intro: int_div_less_self)

declare digits10.simps [simp del]

definition candidate_ok :: "ratio \<Rightarrow> nat \<Rightarrow> int \<times> int \<Rightarrow> bool" where
  "candidate_ok x k c =
     (10 ^ (k - 1) \<le> fst c \<and> fst c < 10 ^ k \<and>
      round_double (scale 10 (fst c, 1) (snd c - int k)) = round_double x)"

definition candidates_at :: "ratio \<Rightarrow> nat \<Rightarrow> int \<Rightarrow> (int \<times> int) list" where
  "candidates_at x k n =
     (let lo = ratio_floor (scale 10 x (int k - n))
      in filter (candidate_ok x k) [(lo, n), (lo + 1, n)])"

definition shortest_candidates :: "ratio \<Rightarrow> nat \<Rightarrow> (int \<times> int) list" where
  "shortest_candidates x k =
     (let n0 = floor_log 10 x + 1 in candidates_at x k n0 @ candidates_at x k (n0 + 1))"

definition closer :: "ratio \<Rightarrow> nat \<Rightarrow> int \<times> int \<Rightarrow> int \<times> int \<Rightarrow> int \<times> int" where
  "closer x k c1 c2 =
     (let d1 = ratio_dist (scale 10 (fst c1, 1) (snd c1 - int k)) x;
          d2 = ratio_dist (scale 10 (fst c2, 1) (snd c2 - int k)) x
      in if ratio_less d2 d1 \<or> (\<not> ratio_less d1 d2 \<and> even (fst c2) \<and> odd (fst c1)) then c2 else c1)"

fun shortest_digits :: "ratio \<Rightarrow> nat \<Rightarrow> nat \<Rightarrow> ((int \<times> int) \<times> nat) option" where
  "shortest_digits x k 0 = None"
| "shortest_digits x k (Suc fuel) =
     (case shortest_candidates x k of
        [] \<Rightarrow> shortest_digits x (Suc k) fuel
      | c # cs \<Rightarrow> Some (foldl (closer x k) c cs, k))"

definition format_decimal :: "int \<Rightarrow> nat \<Rightarrow> int \<Rightarrow> jsstring" where
  "format_decimal s k n =
     (let ds = digits10 s
      in if int k \<le> n \<and> n \<le> 21 then ds @ replicate (nat (n - int k)) 48
         else if 0 < n \<and> n \<le> 21 then take (nat n) ds @ ascii ''.'' @ drop (nat n) ds
         else if - 6 < n \<and> n \<le> 0 then ascii ''0.'' @ replicate (nat (- n)) 48 @ ds
         else (let e = n - 1;
                   ex = ascii (if e < 0 then ''e-'' else ''e+'') @ digits10 \<bar>e\<bar>
               in if k = 1 then ds @ ex else take 1 ds @ ascii ''.'' @ drop 1 ds @ ex))"

definition toString_pos :: "ratio \<Rightarrow> jsstring" where
  "toString_pos x =
     (case shortest_digits x 1 17 of
        Some ((s, n), k) \<Rightarrow> format_decimal s k n
      | None \<Rightarrow> (let n = floor_log 10 x + 1 in format_decimal (round_half_even (scale 10 x (17 - n))) 17 n))"

fun Number_toString :: "jsnum \<Rightarrow> jsstring" where
  "Number_toString NaN = ascii ''NaN''"
| "Number_toString PosInf = ascii ''Infinity''"
| "Number_toString NegInf = ascii ''-Infinity''"
| "Number_toString (Fin m e) =
     (if m = 0 then ascii ''0''
      else if m < 0 then ascii ''-'' @ toString_pos (ratio_of (- m) e)
      else toString_pos (ratio_of m e))"

text \<open>
  \<open>Number.prototype.toFixed(f)\<close>: the integer \<open>n\<close> with \<open>n / 10 ^ f\<close> closest to the exact
  value (the larger on a tie), printed with \<open>f\<close> digits after the point; values from
  \<open>10 ^ 21\<close> on are printed by \<open>toString\<close>.
\<close>

definition toFixed_pos :: "ratio \<Rightarrow> nat \<Rightarrow> jsstring" where
  "toFixed_pos x f =
     (if 10 ^ 21 * snd x \<le> fst x then Number_toString (round_double x)
      else (let n = ratio_floor (2 * fst x * 10 ^ f + snd x, 2 * snd x);
                m = digits10 n
            in if f \<noteq> 0
               then (let m2 = (if length m \<le> f then replicate (f + 1 - length m) 48 @ m else m);
                         k = length m2
                     in take (k - f) m2 @ ascii ''.'' @ drop (k - f) m2)
               else m))"

fun Number_toFixed :: "jsnum \<Rightarrow> nat \<Rightarrow> jsstring" where
  "Number_toFixed (Fin m e) f =
     (if m < 0 then ascii ''-'' @ toFixed_pos (ratio_of (- m) e) f else toFixed_pos (ratio_of m e) f)"
| "Number_toFixed x f = Number_toString x"

text \<open>
  The number denoted by a decimal literal with the digits \<open>d\<close>, \<open>p\<close> of them after
  the point: \<open>js_literal 252 1\<close> is \<open>25.2\<close>.
\<close>

definition js_literal :: "int \<Rightarrow> int \<Rightarrow> jsnum" where
  "js_literal d p = round_double (scale 10 (d, 1) (- p))"

section \<open>The location picker (\<open>client/src/components/LocationPicker.tsx\<close>)\<close>

subsection \<open>Result sanitizer\<close>

definition isValidCoord :: "jsnum \<Rightarrow> jsnum \<Rightarrow> bool" where
  "isValidCoord lat lng =
     (isFinite lat \<and> isFinite lng \<and>
      js_ge lat (Fin (- 90) 0) \<and> js_le lat (Fin 90 0) \<and>
      js_ge lng (Fin (- 180) 0) \<and> js_le lng (Fin 180 0))"

definition is_control_char :: "16 word \<Rightarrow> bool" where
  \<comment> \<open>the character class \<open>[\x00-\x1F\x7F]\<close>\<close>
  "is_control_char c = (c \<le> 0x1F \<or> c = 0x7F)"

definition sanitiseAddress :: "jsstring \<Rightarrow> jsstring" where
  "sanitiseAddress raw = take 300 (trim (filter (\<lambda>c. \<not> is_control_char c) raw))"

subsection \<open>Provider responses\<close>

record LocationData =
  address :: jsstring
  latitude :: jsstring
  longitude :: jsstring

record PhotonProperties =
  name :: "jsstring option"
  street :: "jsstring option"
  city :: "jsstring option"
  state :: "jsstring option"
  country :: "jsstring option"
  postcode :: "jsstring option"

record PhotonGeometry =
  coordinates :: "jsnum \<times> jsnum"  \<comment> \<open>\<open>[lng, lat]\<close>\<close>

record PhotonFeature =
  properties :: PhotonProperties
  geometry :: PhotonGeometry

text \<open>
  The fields \<open>city\<close>, \<open>state\<close> and \<open>country\<close> of the Nominatim address and the field
  \<open>address\<close> of the response carry the prefix \<open>addr\<close> here, field names being global.
\<close>

record NominatimAddress =
  amenity :: "jsstring option"
  road :: "jsstring option"
  suburb :: "jsstring option"
  addr_city :: "jsstring option"
  addr_state :: "jsstring option"
  addr_country :: "jsstring option"

record NominatimResponse =
  display_name :: jsstring
  addr :: NominatimAddress

text \<open>\<open>if (p) parts.push(p)\<close>\<close>

definition push_if :: "jsstring option \<Rightarrow> jsstring list \<Rightarrow> jsstring list" where
  "push_if p parts = (case p of None \<Rightarrow> parts | Some s \<Rightarrow> if truthy p then parts @ [s] else parts)"

definition buildReadableAddress :: "PhotonProperties \<Rightarrow> jsstring" where
  "buildReadableAddress props =
     (let parts = [];
          parts = push_if (name props) parts;
          parts = push_if (street props) parts;
          parts = push_if (city props) parts;
          parts = push_if (state props) parts;
          joined = join (ascii '', '') parts
      in sanitiseAddress (if joined \<noteq> [] then joined else ascii ''Unknown location''))"

text \<open>
  The address of a reverse lookup. \<open>handlePinDrop\<close> and \<open>fetchGpsLocation\<close> both carry
  this block inline, word for word.
\<close>

definition reverseAddress :: "NominatimResponse \<Rightarrow> jsstring" where
  "reverseAddress data =
     (let parts = [];
          parts = push_if (amenity (addr data)) parts;
          parts = push_if (road (addr data)) parts;
          parts = push_if (suburb (addr data)) parts;
          parts = push_if (addr_city (addr data)) parts;
          parts = push_if (addr_state (addr data)) parts
      in sanitiseAddress (if length parts > 0 then join (ascii '', '') parts else display_name data))"

text \<open>
  Address assembly as the specification words it: the components that are present, in
  precedence order, joined; the fallback when none is present.
\<close>

fun present :: "jsstring option \<Rightarrow> jsstring list" where
  "present None = []"
| "present (Some s) = (if s = [] then [] else [s])"

definition assemble_spec :: "jsstring option list \<Rightarrow> jsstring \<Rightarrow> jsstring" where
  "assemble_spec components fallback =
     (let parts = concat (map present components)
      in if parts = [] then fallback else join (ascii '', '') parts)"

subsection \<open>Responses of the network and of the device\<close>

datatype reverse_outcome =
    NetworkFailure                \<comment> \<open>\<open>fetch\<close> rejects\<close>
  | NonSuccess                    \<comment> \<open>\<open>!res.ok\<close>\<close>
  | Malformed                     \<comment> \<open>\<open>res.json()\<close> rejects, or the body has no address object\<close>
  | Resolved NominatimResponse

datatype search_outcome =
    SearchNetworkFailure
  | SearchNonSuccess
  | SearchMalformed
  | SearchOk "PhotonFeature list option"  \<comment> \<open>\<open>data.features\<close>, possibly absent\<close>

fun reverse_failed :: "reverse_outcome \<Rightarrow> bool" where
  "reverse_failed (Resolved data) = False"
| "reverse_failed outcome = True"

text \<open>
  \<open>encodeURIComponent\<close> throws a \<open>URIError\<close> on a lone surrogate; on every other string
  it returns.
\<close>

fun well_formed_utf16 :: "jsstring \<Rightarrow> bool" where
  "well_formed_utf16 [] = True"
| "well_formed_utf16 [c] = (\<not> (0xD800 \<le> c \<and> c \<le> 0xDFFF))"
| "well_formed_utf16 (c # d # cs) =
     (if 0xD800 \<le> c \<and> c \<le> 0xDBFF then 0xDC00 \<le> d \<and> d \<le> 0xDFFF \<and> well_formed_utf16 cs
      else if 0xDC00 \<le> c \<and> c \<le> 0xDFFF then False
      else well_formed_utf16 (d # cs))"

subsection \<open>Component state\<close>

datatype Tab = TabSearch | TabMap | TabGps

text \<open>
  What the component does to the outside: the two upward callbacks, the two kinds of
  network request, and the request to the device.
\<close>

datatype effect =
    OnChange jsstring
  | OnLocationFetched LocationData
  | FetchSearch jsstring            \<comment> \<open>the Photon request for this query\<close>
  | FetchReverse jsnum jsnum        \<comment> \<open>the Nominatim request for \<open>lat\<close>, \<open>lon\<close>\<close>
  | GetCurrentPosition

fun is_callback :: "effect \<Rightarrow> bool" where
  "is_callback (OnChange a) = True"
| "is_callback (OnLocationFetched d) = True"
| "is_callback e = False"

fun is_search_call :: "effect \<Rightarrow> bool" where
  "is_search_call (FetchSearch q) = True"
| "is_search_call e = False"

text \<open>A pending \<open>setTimeout\<close> callback; the closure holds the query it was created for.\<close>

record timer =
  timer_id :: nat
  due :: nat
  query :: jsstring

text \<open>
  The \<open>useState\<close> cells and the \<open>useRef\<close> cell of the component, followed by its
  environment: whether the last run of the search effect returned a cleanup, the timers of
  the event loop, the clock in milliseconds, and the effects so far.
\<close>

record picker =
  activeTab :: Tab
  isLoading :: bool
  error :: "jsstring option"
  searchQuery :: jsstring
  searchResults :: "PhotonFeature list"
  isSearching :: bool
  searchDebounceRef :: "nat option"
  mapLat :: "jsnum option"
  mapLng :: "jsnum option"
  isReverseGeocoding :: bool
  confirmedAddress :: jsstring
  hasCleanup :: bool
  timers :: "timer list"
  nextTimerId :: nat
  now :: nat
  calls :: "effect list"

definition callbacks :: "picker \<Rightarrow> effect list" where
  "callbacks s = filter is_callback (calls s)"

definition search_calls :: "picker \<Rightarrow> effect list" where
  "search_calls s = filter is_search_call (calls s)"

definition initial :: picker where
  "initial =
     \<lparr> activeTab = TabSearch, isLoading = False, error = None, searchQuery = [],
       searchResults = [], isSearching = False, searchDebounceRef = None,
       mapLat = None, mapLng = None, isReverseGeocoding = False, confirmedAddress = [],
       hasCleanup = False, timers = [], nextTimerId = 1, now = 0, calls = [] \<rparr>"

text \<open>The argument \<open>cb\<close> of the handlers says whether the optional prop \<open>onLocationFetched\<close> is given.\<close>

definition notifyLocation :: "bool \<Rightarrow> LocationData \<Rightarrow> picker \<Rightarrow> picker" where
  "notifyLocation cb data s =
     s\<lparr> calls := calls s @ [OnChange (address data)] @ (if cb then [OnLocationFetched data] else []),
        confirmedAddress := address data,
        error := None \<rparr>"

subsection \<open>Search tab: the debounced Photon query\<close>

definition clearTimeout :: "nat \<Rightarrow> picker \<Rightarrow> picker" where
  "clearTimeout i s = s\<lparr> timers := filter (\<lambda>t. timer_id t \<noteq> i) (timers s) \<rparr>"

definition setTimeout :: "jsstring \<Rightarrow> nat \<Rightarrow> picker \<Rightarrow> nat \<times> picker" where
  "setTimeout q delay s =
     (nextTimerId s,
      s\<lparr> timers := timers s @ [\<lparr> timer_id = nextTimerId s, due = now s + delay, query = q \<rparr>],
         nextTimerId := nextTimerId s + 1 \<rparr>)"

text \<open>\<open>if (searchDebounceRef.current) clearTimeout(searchDebounceRef.current)\<close>; the id 0 is falsy.\<close>

definition clearPending :: "picker \<Rightarrow> picker" where
  "clearPending s =
     (case searchDebounceRef s of
        None \<Rightarrow> s
      | Some i \<Rightarrow> if i \<noteq> 0 then clearTimeout i s else s)"

definition searchEffect :: "picker \<Rightarrow> picker" where
  "searchEffect s =
     (let s1 = clearPending s
      in if length (trim (searchQuery s1)) < 2
         then s1\<lparr> searchResults := [], hasCleanup := False \<rparr>
         else (let (i, s2) = setTimeout (searchQuery s1) 300 s1
               in s2\<lparr> searchDebounceRef := Some i, hasCleanup := True \<rparr>))"

definition searchCleanup :: "picker \<Rightarrow> picker" where
  "searchCleanup s = (if hasCleanup s then clearPending s else s)"

text \<open>
  After a render in which \<open>searchQuery\<close> changed, React runs the cleanup of the previous
  effect and then the effect; with an unchanged dependency it runs neither.
\<close>

definition afterRender :: "jsstring \<Rightarrow> picker \<Rightarrow> picker" where
  "afterRender previous s = (if searchQuery s = previous then s else searchEffect (searchCleanup s))"

definition setSearchQuery :: "jsstring \<Rightarrow> picker \<Rightarrow> picker" where
  \<comment> \<open>the \<open>onChange\<close> of the search input\<close>
  "setSearchQuery q s = afterRender (searchQuery s) (s\<lparr> searchQuery := q \<rparr>)"

text \<open>The timer callback up to its first \<open>await\<close>, and its continuation on the response.\<close>

definition searchFire :: "jsstring \<Rightarrow> picker \<Rightarrow> picker" where
  "searchFire q s =
     (let s1 = s\<lparr> isSearching := True \<rparr>
      in if well_formed_utf16 q then s1\<lparr> calls := calls s1 @ [FetchSearch q] \<rparr>
         else s1\<lparr> searchResults := [], isSearching := False \<rparr>)"

definition searchDone :: "search_outcome \<Rightarrow> picker \<Rightarrow> picker" where
  "searchDone outcome s =
     s\<lparr> searchResults :=
          (case outcome of SearchOk (Some features) \<Rightarrow> features | _ \<Rightarrow> []),
        isSearching := False \<rparr>"

text \<open>
  \<open>d\<close> milliseconds pass: the timers that fall due run, earliest first, and leave the
  table.
\<close>

definition elapse :: "nat \<Rightarrow> picker \<Rightarrow> picker" where
  "elapse d s =
     (let t = now s + d;
          ready = sort_key due (filter (\<lambda>x. due x \<le> t) (timers s));
          s1 = s\<lparr> now := t, timers := filter (\<lambda>x. \<not> due x \<le> t) (timers s) \<rparr>
      in foldl (\<lambda>s x. searchFire (query x) s) s1 ready)"

definition handleSearchSelect :: "bool \<Rightarrow> PhotonFeature \<Rightarrow> picker \<Rightarrow> picker" where
  "handleSearchSelect cb feature s =
     (let (lng, lat) = coordinates (geometry feature)
      in if \<not> isValidCoord lat lng then s
         else (let a = buildReadableAddress (properties feature);
                   s1 = s\<lparr> searchQuery := a, searchResults := [] \<rparr>;
                   s2 = notifyLocation cb
                          \<lparr> address = a, latitude = Number_toString lat, longitude = Number_toString lng \<rparr> s1
               in afterRender (searchQuery s) s2))"

subsection \<open>Map tab: reverse geocode on pin drop\<close>

definition pinDropBegin :: "jsnum \<Rightarrow> jsnum \<Rightarrow> picker \<Rightarrow> picker" where
  "pinDropBegin lat lng s =
     s\<lparr> mapLat := Some lat, mapLng := Some lng, isReverseGeocoding := True, error := None,
        calls := calls s @ [FetchReverse lat lng] \<rparr>"

definition pinDropEnd :: "bool \<Rightarrow> jsnum \<Rightarrow> jsnum \<Rightarrow> reverse_outcome \<Rightarrow> picker \<Rightarrow> picker" where
  "pinDropEnd cb lat lng outcome s =
     (case outcome of
        Resolved data \<Rightarrow>
          notifyLocation cb
            \<lparr> address = reverseAddress data,
              latitude = Number_toString lat, longitude = Number_toString lng \<rparr> s
      | _ \<Rightarrow>
          notifyLocation cb
            \<lparr> address = Number_toFixed lat 5 @ ascii '', '' @ Number_toFixed lng 5,
              latitude = Number_toString lat, longitude = Number_toString lng \<rparr> s)
     \<lparr> isReverseGeocoding := False \<rparr>"

definition handlePinDrop :: "bool \<Rightarrow> jsnum \<Rightarrow> jsnum \<Rightarrow> reverse_outcome \<Rightarrow> picker \<Rightarrow> picker" where
  \<comment> \<open>the whole handler, when nothing else happens while the request is in flight\<close>
  "handlePinDrop cb lat lng outcome s = pinDropEnd cb lat lng outcome (pinDropBegin lat lng s)"

subsection \<open>GPS tab\<close>

definition fetchGpsLocation :: "bool \<Rightarrow> picker \<Rightarrow> picker" where
  \<comment> \<open>\<open>supported\<close>: whether \<open>navigator.geolocation\<close> exists\<close>
  "fetchGpsLocation supported s =
     (let s1 = s\<lparr> isLoading := True, error := None \<rparr>
      in if \<not> supported
         then s1\<lparr> error := Some (ascii ''Geolocation is not supported by your browser''),
                  isLoading := False \<rparr>
         else s1\<lparr> calls := calls s1 @ [GetCurrentPosition] \<rparr>)"

definition gpsPosition :: "jsnum \<Rightarrow> jsnum \<Rightarrow> picker \<Rightarrow> picker" where
  \<comment> \<open>the success callback up to its \<open>await\<close>\<close>
  "gpsPosition lat lng s = s\<lparr> calls := calls s @ [FetchReverse lat lng] \<rparr>"

definition gpsReverseDone :: "bool \<Rightarrow> jsnum \<Rightarrow> jsnum \<Rightarrow> reverse_outcome \<Rightarrow> picker \<Rightarrow> picker" where
  "gpsReverseDone cb lat lng outcome s =
     (case outcome of
        Resolved data \<Rightarrow>
          (notifyLocation cb
             \<lparr> address = reverseAddress data,
               latitude = Number_toString lat, longitude = Number_toString lng \<rparr> s)
          \<lparr> mapLat := Some lat, mapLng := Some lng \<rparr>
      | _ \<Rightarrow> s\<lparr> error := Some (ascii ''Failed to get address. Please try again.'') \<rparr>)
     \<lparr> isLoading := False \<rparr>"

text \<open>The error callback; \<open>code\<close> is \<open>err.code\<close>: 1 permission denied, 2 unavailable, 3 timeout.\<close>

definition gpsErrorMessage :: "nat \<Rightarrow> jsstring" where
  "gpsErrorMessage code =
     (if code = 1 then ascii ''Location permission denied. Please enable it in your browser settings.''
      else if code = 2 then ascii ''Location unavailable. Please try again.''
      else if code = 3 then ascii ''Location request timed out. Please try again.''
      else ascii ''An error occurred getting your location.'')"

definition gpsError :: "nat \<Rightarrow> picker \<Rightarrow> picker" where
  "gpsError code s = s\<lparr> isLoading := False, error := Some (gpsErrorMessage code) \<rparr>"

subsection \<open>Tab bar\<close>

definition selectTab :: "Tab \<Rightarrow> picker \<Rightarrow> picker" where
  "selectTab tab s = s\<lparr> activeTab := tab, error := None \<rparr>"

subsection \<open>Runs of the component\<close>

datatype event =
    Elapse nat
  | TypeQuery jsstring
  | SearchResponse search_outcome
  | SelectResult nat                \<comment> \<open>a click on the i-th entry of the dropdown\<close>
  | ClickTab Tab
  | PinDrop jsnum jsnum
  | PinReverseResponse jsnum jsnum reverse_outcome
  | ClickGps bool
  | GpsPosition jsnum jsnum
  | GpsReverseResponse jsnum jsnum reverse_outcome
  | GpsError nat

fun step :: "bool \<Rightarrow> picker \<Rightarrow> event \<Rightarrow> picker" where
  "step cb s (Elapse d) = elapse d s"
| "step cb s (TypeQuery q) = setSearchQuery q s"
| "step cb s (SearchResponse outcome) = searchDone outcome s"
| "step cb s (SelectResult i) =
     (if i < length (searchResults s) then handleSearchSelect cb (searchResults s ! i) s else s)"
| "step cb s (ClickTab tab) = selectTab tab s"
| "step cb s (PinDrop lat lng) = pinDropBegin lat lng s"
| "step cb s (PinReverseResponse lat lng outcome) = pinDropEnd cb lat lng outcome s"
| "step cb s (ClickGps supported) = fetchGpsLocation supported s"
| "step cb s (GpsPosition lat lng) = gpsPosition lat lng s"
| "step cb s (GpsReverseResponse lat lng outcome) = gpsReverseDone cb lat lng outcome s"
| "step cb s (GpsError code) = gpsError code s"

text \<open>The component after its mount (the effect runs once on the empty query) and the events.\<close>

definition run :: "bool \<Rightarrow> event list \<Rightarrow> picker" where
  "run cb events = foldl (step cb) (searchEffect initial) events"

subsection \<open>Invariants of the debouncer\<close>

text \<open>
  At most one timer is pending; it is the one \<open>searchDebounceRef\<close> names, and it was
  created for the current query, which has at least two characters once trimmed.
\<close>

definition pending_ok :: "picker \<Rightarrow> bool" where
  "pending_ok s =
     (0 < nextTimerId s \<and>
      (case timers s of
         [] \<Rightarrow> True
       | [t] \<Rightarrow> searchDebounceRef s = Some (timer_id t) \<and> timer_id t \<noteq> 0 \<and>
                query t = searchQuery s \<and> 2 \<le> length (trim (query t))
       | _ \<Rightarrow> False))"

fun search_call_ok :: "effect \<Rightarrow> bool" where
  "search_call_ok (FetchSearch q) = (2 \<le> length (trim q))"
| "search_call_ok e = True"

definition calls_ok :: "picker \<Rightarrow> bool" where
  "calls_ok s = list_all search_call_ok (calls s)"

section \<open>Verification of the result sanitizer\<close>

subsection \<open>Coordinate validation\<close>

lemma ratio_of_value:
  "0 < snd (ratio_of m e) \<and>
   real_of_int (fst (ratio_of m e)) / real_of_int (snd (ratio_of m e)) = of_int m * 2 powi e"
  by (simp add: ratio_of_def power_int_def field_simps)

lemma frac_less_cross:
  fixes p1 q1 p2 q2 :: int
  assumes "0 < q1" "0 < q2"
  shows "(real_of_int p1 / of_int q1 < of_int p2 / of_int q2) = (p1 * q2 < p2 * q1)"
proof -
  have "(real_of_int p1 / of_int q1 < of_int p2 / of_int q2) =
        (real_of_int p1 * of_int q2 < of_int p2 * of_int q1)"
    using assms by (simp add: field_simps)
  also have "\<dots> = (real_of_int (p1 * q2) < of_int (p2 * q1))"
    by simp
  also have "\<dots> = (p1 * q2 < p2 * q1)"
    by (rule of_int_less_iff)
  finally show ?thesis .
qed

text \<open>The integer comparison of \<open>Number_lessThan\<close> is the comparison of the values.\<close>

lemma ratio_less_value:
  "ratio_less (ratio_of m e) (ratio_of m' e') \<longleftrightarrow>
     (of_int m * 2 powi e < (of_int m' * 2 powi e' :: real))"
proof -
  obtain p q where r: "ratio_of m e = (p, q)"
    by (cases "ratio_of m e")
  obtain p' q' where r': "ratio_of m' e' = (p', q')"
    by (cases "ratio_of m' e'")
  from ratio_of_value [of m e] r
  have q: "0 < q" and v: "of_int m * 2 powi e = real_of_int p / of_int q"
    by simp_all
  from ratio_of_value [of m' e'] r'
  have q': "0 < q'" and v': "of_int m' * 2 powi e' = real_of_int p' / of_int q'"
    by simp_all
  show ?thesis
    unfolding r r' v v' ratio_less_def using frac_less_cross [OF q q'] by simp
qed

text \<open>
  Claim C1. \<open>isValidCoord lat lng\<close> is true if and only if both arguments are finite
  numbers, the value of \<open>lat\<close> lies in \<open>[-90, 90]\<close> and the value of \<open>lng\<close> lies in
  \<open>[-180, 180]\<close>. \<open>NaN\<close> and the infinities have no value and are rejected.
\<close>

theorem isValidCoord_iff:
  "isValidCoord lat lng \<longleftrightarrow>
     (\<exists>a b. num_value lat = Some a \<and> num_value lng = Some b \<and>
            - 90 \<le> a \<and> a \<le> 90 \<and> - 180 \<le> b \<and> b \<le> 180)"
proof (cases lat; cases lng)
  fix m e m' e'
  assume "lat = Fin m e" "lng = Fin m' e'"
  then show ?thesis
    using ratio_less_value [of m e "- 90" 0] ratio_less_value [of 90 0 m e]
      ratio_less_value [of m' e' "- 180" 0] ratio_less_value [of 180 0 m' e']
    by (simp add: isValidCoord_def num_value_def js_ge_def js_le_def not_less)
qed (simp_all add: isValidCoord_def num_value_def js_ge_def js_le_def)

subsection \<open>Address sanitization\<close>

lemma set_trim_subset: "set (trim s) \<subseteq> set s"
proof -
  have "set (trim s) = set (dropWhile is_js_whitespace (rev (dropWhile is_js_whitespace s)))"
    by (simp add: trim_def)
  also have "\<dots> \<subseteq> set (rev (dropWhile is_js_whitespace s))"
    by (auto dest: set_dropWhileD)
  also have "\<dots> \<subseteq> set s"
    by (auto dest: set_dropWhileD)
  finally show ?thesis .
qed

text \<open>A trimmed string neither starts nor ends with white space.\<close>

lemma trim_ends:
  assumes "trim s \<noteq> []"
  shows "\<not> is_js_whitespace (hd (trim s))" and "\<not> is_js_whitespace (last (trim s))"
proof -
  let ?t = "dropWhile is_js_whitespace s"
  have t: "?t \<noteq> []"
  proof
    assume e: "?t = []"
    have "trim s = []" unfolding trim_def e by simp
    with assms show False by simp
  qed
  then obtain x t' where xt: "?t = x # t'"
    by (cases ?t) auto
  have x: "\<not> is_js_whitespace x"
    using hd_dropWhile [OF t] xt by simp
  have "\<exists>ys. dropWhile is_js_whitespace (rev ?t) = ys @ [x]"
    unfolding xt by (simp add: dropWhile_append x)
  then obtain ys where "dropWhile is_js_whitespace (rev ?t) = ys @ [x]" ..
  then have "trim s = x # rev ys"
    by (simp add: trim_def)
  with x show "\<not> is_js_whitespace (hd (trim s))"
    by simp
  from assms have "dropWhile is_js_whitespace (rev ?t) \<noteq> []"
    by (simp add: trim_def)
  from hd_dropWhile [OF this] show "\<not> is_js_whitespace (last (trim s))"
    using assms by (simp add: trim_def last_rev)
qed

text \<open>
  Claim C2. For every input string, the output of \<open>sanitiseAddress\<close> has at most 300
  code units and none of them is a control character (U+0000 to U+001F, U+007F). The
  function removes the control characters, then trims the white space around the rest,
  then keeps the first 300 code units; the output never starts with white space.
\<close>

theorem sanitiseAddress_bounded_clean:
  "length (sanitiseAddress raw) \<le> 300 \<and>
   (\<forall>c \<in> set (sanitiseAddress raw). \<not> is_control_char c) \<and>
   sanitiseAddress raw = take 300 (trim (filter (\<lambda>c. \<not> is_control_char c) raw)) \<and>
   (sanitiseAddress raw \<noteq> [] \<longrightarrow> \<not> is_js_whitespace (hd (sanitiseAddress raw)))"
proof (intro conjI impI)
  show "length (sanitiseAddress raw) \<le> 300"
    by (simp add: sanitiseAddress_def)
  show "\<forall>c \<in> set (sanitiseAddress raw). \<not> is_control_char c"
  proof
    fix c
    assume "c \<in> set (sanitiseAddress raw)"
    then have "c \<in> set (trim (filter (\<lambda>c. \<not> is_control_char c) raw))"
      unfolding sanitiseAddress_def by (rule in_set_takeD)
    with set_trim_subset have "c \<in> set (filter (\<lambda>c. \<not> is_control_char c) raw)"
      by blast
    then show "\<not> is_control_char c"
      by simp
  qed
  show "sanitiseAddress raw = take 300 (trim (filter (\<lambda>c. \<not> is_control_char c) raw))"
    by (simp add: sanitiseAddress_def)
next
  let ?t = "trim (filter (\<lambda>c. \<not> is_control_char c) raw)"
  assume "sanitiseAddress raw \<noteq> []"
  then have "?t \<noteq> []" and "hd (sanitiseAddress raw) = hd ?t"
    by (auto simp: sanitiseAddress_def hd_take)
  with trim_ends(1) [of "filter (\<lambda>c. \<not> is_control_char c) raw"]
  show "\<not> is_js_whitespace (hd (sanitiseAddress raw))"
    by simp
qed

text \<open>A string that is already clean, trimmed and short is returned as it is.\<close>

lemma sanitiseAddress_fixpoint:
  assumes "\<forall>c \<in> set raw. \<not> is_control_char c" "length raw \<le> 300"
    and "raw \<noteq> [] \<longrightarrow> \<not> is_js_whitespace (hd raw) \<and> \<not> is_js_whitespace (last raw)"
  shows "sanitiseAddress raw = raw"
proof (cases raw)
  case Nil
  then show ?thesis by (simp add: sanitiseAddress_def trim_def)
next
  case (Cons x xs)
  with assms(3) have lead: "dropWhile is_js_whitespace raw = raw"
    by simp
  have "raw \<noteq> []"
    using Cons by simp
  with assms(3) have "\<not> is_js_whitespace (hd (rev raw))"
    unfolding hd_rev by blast
  with Cons have trail: "dropWhile is_js_whitespace (rev raw) = rev raw"
    by (cases "rev raw") simp_all
  have "filter (\<lambda>c. \<not> is_control_char c) raw = raw"
    using assms(1) by (simp add: filter_id_conv)
  with lead trail assms(2) show ?thesis
    by (simp add: sanitiseAddress_def trim_def)
qed

text \<open>
  On the string SP TAB \<open>D\<close> LF \<open>u\<close> DEL SP \<open>b\<close> NBSP SP the result is \<open>Du b\<close>; a run
  of 400 letters is cut to 300.
\<close>

theorem sanitiseAddress_bounded_clean_witness:
  "sanitiseAddress [0x20, 0x09, 0x44, 0x0A, 0x75, 0x7F, 0x20, 0x62, 0xA0, 0x20] = [0x44, 0x75, 0x20, 0x62] \<and>
   length (sanitiseAddress [0x20, 0x09, 0x44, 0x0A, 0x75, 0x7F, 0x20, 0x62, 0xA0, 0x20]) \<le> 300 \<and>
   \<not> is_control_char 0x44 \<and> \<not> is_js_whitespace 0x44 \<and>
   length (sanitiseAddress (replicate 400 0x61)) = 300"
  using sanitiseAddress_bounded_clean [of "[0x20, 0x09, 0x44, 0x0A, 0x75, 0x7F, 0x20, 0x62, 0xA0, 0x20]"]
  by (simp add: sanitiseAddress_def trim_def is_control_char_def is_js_whitespace_def)

section \<open>Verification of the resolution flows\<close>

subsection \<open>Evaluation at the coordinates of the examples\<close>

lemma toString_25_2: "Number_toString (js_literal 252 1) = ascii ''25.2''"
  by code_simp

lemma toString_55_3: "Number_toString (js_literal 553 1) = ascii ''55.3''"
  by code_simp

lemma toFixed_25_2: "Number_toFixed (js_literal 252 1) 5 = ascii ''25.20000''"
  by code_simp

lemma toFixed_55_3: "Number_toFixed (js_literal 553 1) 5 = ascii ''55.30000''"
  by code_simp

lemma valid_25_2_55_3: "isValidCoord (js_literal 252 1) (js_literal 553 1)"
  by code_simp

lemma toString_25_1972: "Number_toString (js_literal 251972 4) = ascii ''25.1972''"
  by code_simp

lemma toString_55_2744: "Number_toString (js_literal 552744 4) = ascii ''55.2744''"
  by code_simp

lemma valid_burj: "isValidCoord (js_literal 251972 4) (js_literal 552744 4)"
  by code_simp

lemma invalid_lat_91: "\<not> isValidCoord (js_literal 91 0) (js_literal 553 1)"
  by code_simp

lemma mounted: "run cb [] = initial"
  by (simp add: run_def searchEffect_def clearPending_def initial_def trim_def)

subsection \<open>Frame properties of the handlers\<close>

lemma notifyLocation_simps:
  "calls (notifyLocation cb d s) = calls s @ OnChange (address d) # (if cb then [OnLocationFetched d] else [])"
  "confirmedAddress (notifyLocation cb d s) = address d"
  "error (notifyLocation cb d s) = None"
  "mapLat (notifyLocation cb d s) = mapLat s"
  "mapLng (notifyLocation cb d s) = mapLng s"
  "searchQuery (notifyLocation cb d s) = searchQuery s"
  "searchResults (notifyLocation cb d s) = searchResults s"
  "isLoading (notifyLocation cb d s) = isLoading s"
  "isSearching (notifyLocation cb d s) = isSearching s"
  "timers (notifyLocation cb d s) = timers s"
  by (simp_all add: notifyLocation_def)

lemma clearPending_frame:
  "calls (clearPending s) = calls s" "confirmedAddress (clearPending s) = confirmedAddress s"
  "error (clearPending s) = error s" "mapLat (clearPending s) = mapLat s"
  "mapLng (clearPending s) = mapLng s" "searchQuery (clearPending s) = searchQuery s"
  "now (clearPending s) = now s" "nextTimerId (clearPending s) = nextTimerId s"
  "searchResults (clearPending s) = searchResults s" "isLoading (clearPending s) = isLoading s"
  "hasCleanup (clearPending s) = hasCleanup s"
  "searchDebounceRef (clearPending s) = searchDebounceRef s"
  by (simp_all add: clearPending_def clearTimeout_def split: option.splits)

lemma afterRender_frame:
  "calls (afterRender p s) = calls s" "confirmedAddress (afterRender p s) = confirmedAddress s"
  "error (afterRender p s) = error s" "mapLat (afterRender p s) = mapLat s"
  "mapLng (afterRender p s) = mapLng s" "searchQuery (afterRender p s) = searchQuery s"
  "now (afterRender p s) = now s" "isLoading (afterRender p s) = isLoading s"
  by (simp_all add: afterRender_def searchEffect_def searchCleanup_def setTimeout_def Let_def
      clearPending_frame)

lemma handleSearchSelect_valid:
  assumes "isValidCoord lat lng"
  shows "handleSearchSelect cb \<lparr> properties = props, geometry = \<lparr> coordinates = (lng, lat) \<rparr> \<rparr> s =
           afterRender (searchQuery s)
             (notifyLocation cb
                \<lparr> address = buildReadableAddress props,
                  latitude = Number_toString lat, longitude = Number_toString lng \<rparr>
                (s\<lparr> searchQuery := buildReadableAddress props, searchResults := [] \<rparr>))"
  using assms by (simp add: handleSearchSelect_def Let_def)

lemma handleSearchSelect_invalid:
  assumes "\<not> isValidCoord (snd (coordinates (geometry feature))) (fst (coordinates (geometry feature)))"
  shows "handleSearchSelect cb feature s = s"
  using assms by (simp add: handleSearchSelect_def split_beta)

lemma pinDropEnd_failed:
  assumes "reverse_failed outcome"
  shows "pinDropEnd cb lat lng outcome s =
           (notifyLocation cb
              \<lparr> address = Number_toFixed lat 5 @ ascii '', '' @ Number_toFixed lng 5,
                latitude = Number_toString lat, longitude = Number_toString lng \<rparr> s)
           \<lparr> isReverseGeocoding := False \<rparr>"
  using assms by (cases outcome) (simp_all add: pinDropEnd_def)

lemma gpsReverseDone_failed:
  assumes "reverse_failed outcome"
  shows "gpsReverseDone cb lat lng outcome s =
           s\<lparr> error := Some (ascii ''Failed to get address. Please try again.''), isLoading := False \<rparr>"
  using assms by (cases outcome) (simp_all add: gpsReverseDone_def)

subsection \<open>Address assembly\<close>

lemma push_if_append: "push_if p parts = parts @ present p"
  by (cases p) (simp_all add: push_if_def)

lemma present_nonempty: "\<forall>x \<in> set (concat (map present ps)). x \<noteq> []"
proof (induction ps)
  case Nil
  show ?case by simp
next
  case (Cons p ps)
  then show ?case by (cases p) auto
qed

lemma join_Nil_iff: "\<forall>x \<in> set xs. x \<noteq> [] \<Longrightarrow> join sep xs = [] \<longleftrightarrow> xs = []"
  by (induction sep xs rule: join.induct) auto

lemma buildReadableAddress_spec:
  "buildReadableAddress props =
     sanitiseAddress (assemble_spec [name props, street props, city props, state props]
                        (ascii ''Unknown location''))"
proof -
  let ?parts = "concat (map present [name props, street props, city props, state props])"
  have "join (ascii '', '') ?parts = [] \<longleftrightarrow> ?parts = []"
    using present_nonempty by (rule join_Nil_iff)
  then show ?thesis
    by (simp add: buildReadableAddress_def assemble_spec_def push_if_append)
qed

lemma reverseAddress_spec:
  "reverseAddress data =
     sanitiseAddress (assemble_spec
        [amenity (addr data), road (addr data), suburb (addr data), addr_city (addr data),
         addr_state (addr data)]
        (display_name data))"
  by (simp add: reverseAddress_def assemble_spec_def push_if_append)

text \<open>
  Claim C3, as stated, fails: a forward-search feature without name, street, city and
  state has no display string to fall back to, and \<open>buildReadableAddress\<close> returns the
  literal \<open>Unknown location\<close>, which is none of the strings the provider sent.
\<close>

theorem forward_fallback_counterexample:
  "buildReadableAddress
     \<lparr> name = None, street = Some [], city = None, state = None,
       country = Some (ascii ''United Arab Emirates''), postcode = Some (ascii ''00000'') \<rparr>
     = ascii ''Unknown location'' \<and>
   ascii ''Unknown location'' \<noteq> ascii ''United Arab Emirates'' \<and>
   ascii ''Unknown location'' \<noteq> ascii ''00000''"
  by (simp add: buildReadableAddress_def push_if_def sanitiseAddress_def trim_def ascii_def
      is_control_char_def is_js_whitespace_def)

text \<open>
  Claim C3, amended. The assembled address is the sanitised composition of the present
  (defined and non-empty) components, joined by a comma and a space in precedence order:
  name, street, city, state for a forward-search feature; amenity, road, suburb, city,
  state for a reverse lookup. With no component present a reverse lookup falls back to the
  provider's \<open>display_name\<close> and a forward-search feature to the literal
  \<open>Unknown location\<close>. Selecting a forward-search feature with valid coordinates emits a
  location whose address is that composition.
\<close>

theorem address_assembly:
  "buildReadableAddress props =
     sanitiseAddress (assemble_spec [name props, street props, city props, state props]
                        (ascii ''Unknown location'')) \<and>
   reverseAddress data =
     sanitiseAddress (assemble_spec
        [amenity (addr data), road (addr data), suburb (addr data), addr_city (addr data),
         addr_state (addr data)]
        (display_name data)) \<and>
   (isValidCoord lat lng \<longrightarrow>
      callbacks (handleSearchSelect cb \<lparr> properties = props, geometry = \<lparr> coordinates = (lng, lat) \<rparr> \<rparr> s) =
        callbacks s @ OnChange (buildReadableAddress props) #
          (if cb then [OnLocationFetched
             \<lparr> address = buildReadableAddress props,
               latitude = Number_toString lat, longitude = Number_toString lng \<rparr>] else []))"
proof (intro conjI impI)
  show "buildReadableAddress props =
     sanitiseAddress (assemble_spec [name props, street props, city props, state props]
                        (ascii ''Unknown location''))"
    by (rule buildReadableAddress_spec)
  show "reverseAddress data =
     sanitiseAddress (assemble_spec
        [amenity (addr data), road (addr data), suburb (addr data), addr_city (addr data),
         addr_state (addr data)]
        (display_name data))"
    by (rule reverseAddress_spec)
next
  assume "isValidCoord lat lng"
  then show "callbacks (handleSearchSelect cb \<lparr> properties = props, geometry = \<lparr> coordinates = (lng, lat) \<rparr> \<rparr> s) =
        callbacks s @ OnChange (buildReadableAddress props) #
          (if cb then [OnLocationFetched
             \<lparr> address = buildReadableAddress props,
               latitude = Number_toString lat, longitude = Number_toString lng \<rparr>] else [])"
    by (simp add: handleSearchSelect_valid callbacks_def afterRender_frame notifyLocation_simps)
qed

text \<open>
  The feature of the specification's example: the query \<open>Burj\<close> answered with one
  feature, which the user selects.
\<close>

theorem address_assembly_witness:
  "isValidCoord (js_literal 251972 4) (js_literal 552744 4) \<and>
   callbacks (handleSearchSelect True
      \<lparr> properties = \<lparr> name = Some (ascii ''Burj Khalifa''), street = Some (ascii ''Sheikh Mohammed bin Rashid Boulevard''),
                       city = Some (ascii ''Dubai''), state = Some (ascii ''Dubai''),
                       country = Some (ascii ''United Arab Emirates''), postcode = None \<rparr>,
        geometry = \<lparr> coordinates = (js_literal 552744 4, js_literal 251972 4) \<rparr> \<rparr>
      (run True [])) =
     [OnChange (ascii ''Burj Khalifa, Sheikh Mohammed bin Rashid Boulevard, Dubai, Dubai''),
      OnLocationFetched
        \<lparr> address = ascii ''Burj Khalifa, Sheikh Mohammed bin Rashid Boulevard, Dubai, Dubai'',
          latitude = ascii ''25.1972'', longitude = ascii ''55.2744'' \<rparr>]"
  using address_assembly [where props =
      "\<lparr> name = Some (ascii ''Burj Khalifa''), street = Some (ascii ''Sheikh Mohammed bin Rashid Boulevard''),
         city = Some (ascii ''Dubai''), state = Some (ascii ''Dubai''),
         country = Some (ascii ''United Arab Emirates''), postcode = None \<rparr>"
      and lat = "js_literal 251972 4" and lng = "js_literal 552744 4" and cb = True
      and s = "run True []"]
    valid_burj
  by (simp add: toString_25_1972 toString_55_2744 mounted initial_def callbacks_def
      assemble_spec_def sanitiseAddress_def trim_def ascii_def is_control_char_def
      is_js_whitespace_def)

subsection \<open>The shape of \<open>toFixed(5)\<close>\<close>

text \<open>
  For every finite number below \<open>10 ^ 21\<close> in absolute value, and so for every valid
  coordinate, \<open>toFixed(5)\<close> prints an optional minus sign, at least one digit, a point
  and exactly five digits.
\<close>

lemma digit_char:
  assumes "0 \<le> d" "d < 10"
  shows "is_digit (of_int (48 + d))"
proof -
  from assms have "d = 0 \<or> d = 1 \<or> d = 2 \<or> d = 3 \<or> d = 4 \<or> d = 5 \<or> d = 6 \<or> d = 7 \<or> d = 8 \<or> d = 9"
    by arith
  then show ?thesis
    by (elim disjE) (simp_all add: is_digit_def)
qed

lemma digits10_digits:
  "0 \<le> n \<Longrightarrow> digits10 n \<noteq> [] \<and> list_all is_digit (digits10 n)"
proof (induction n rule: digits10.induct)
  case (1 n)
  show ?case
  proof (cases "n < 10")
    case True
    have "is_digit (of_int (48 + n))"
      using "1.prems" True by (rule digit_char)
    with True show ?thesis
      by (simp add: digits10.simps [of n])
  next
    case False
    with "1.prems" have "0 \<le> n div 10" by simp
    with "1.IH" False have "list_all is_digit (digits10 (n div 10))" by simp
    moreover have "is_digit (of_int (48 + n mod 10))"
      by (rule digit_char) simp_all
    ultimately show ?thesis
      using False by (simp add: digits10.simps [of n])
  qed
qed

lemma toFixed_pos_shape:
  assumes "0 \<le> fst x" "0 < snd x" "fst x < 10 ^ 21 * snd x"
  shows "\<exists>ip fp. toFixed_pos x 5 = ip @ ascii ''.'' @ fp \<and> ip \<noteq> [] \<and> length fp = 5 \<and>
           list_all is_digit ip \<and> list_all is_digit fp"
proof -
  define n where "n = ratio_floor (2 * fst x * 10 ^ 5 + snd x, 2 * snd x)"
  define m where "m = digits10 n"
  define m2 where "m2 = (if length m \<le> 5 then replicate (5 + 1 - length m) 48 @ m else m)"
  have "0 \<le> n"
    unfolding n_def ratio_floor_def using assms(1,2) by (simp add: pos_imp_zdiv_nonneg_iff)
  then have m: "m \<noteq> []" "list_all is_digit m"
    unfolding m_def using digits10_digits [of n] by simp_all
  have len: "6 \<le> length m2"
    unfolding m2_def by simp
  have dig: "list_all is_digit m2"
    unfolding m2_def using m(2) by (simp add: list_all_iff is_digit_def)
  have eq: "toFixed_pos x 5 = take (length m2 - 5) m2 @ ascii ''.'' @ drop (length m2 - 5) m2"
    using assms(3) by (simp add: toFixed_pos_def Let_def n_def m_def m2_def)
  show ?thesis
  proof (intro exI conjI)
    show "toFixed_pos x 5 = take (length m2 - 5) m2 @ ascii ''.'' @ drop (length m2 - 5) m2"
      by (rule eq)
    show "take (length m2 - 5) m2 \<noteq> []"
      using len by auto
    show "length (drop (length m2 - 5) m2) = 5"
      using len by simp
    show "list_all is_digit (take (length m2 - 5) m2)"
      using dig by (auto simp: list_all_iff dest: in_set_takeD)
    show "list_all is_digit (drop (length m2 - 5) m2)"
      using dig by (auto simp: list_all_iff dest: in_set_dropD)
  qed
qed


lemma ratio_of_bound:
  assumes "0 \<le> m" "real_of_int m * 2 powi e < 10 ^ 21"
  shows "0 \<le> fst (ratio_of m e)" "0 < snd (ratio_of m e)"
    "fst (ratio_of m e) < 10 ^ 21 * snd (ratio_of m e)"
proof -
  obtain p q where r: "ratio_of m e = (p, q)"
    by (cases "ratio_of m e")
  from ratio_of_value [of m e] r
  have q: "0 < q" and v: "real_of_int m * 2 powi e = real_of_int p / of_int q"
    by simp_all
  from assms(1) r show "0 \<le> fst (ratio_of m e)"
    by (auto simp: ratio_of_def split: if_splits)
  from q r show "0 < snd (ratio_of m e)"
    by simp
  from assms(2) q have "real_of_int p < 10 ^ 21 * real_of_int q"
    unfolding v by (simp add: field_simps)
  then have "real_of_int p < real_of_int (10 ^ 21 * q)"
    by simp
  then have "p < 10 ^ 21 * q"
    by (simp only: of_int_less_iff)
  with r show "fst (ratio_of m e) < 10 ^ 21 * snd (ratio_of m e)"
    by simp
qed

lemma Number_toFixed_five_decimals:
  assumes "num_value x = Some v" "\<bar>v\<bar> < 10 ^ 21"
  shows "\<exists>sign ip fp. Number_toFixed x 5 = sign @ ip @ ascii ''.'' @ fp \<and>
           (sign = [] \<or> sign = ascii ''-'') \<and> ip \<noteq> [] \<and> length fp = 5 \<and>
           list_all is_digit ip \<and> list_all is_digit fp"
proof (cases x)
  case (Fin m e)
  with assms have v: "v = real_of_int m * 2 powi e"
    by (simp add: num_value_def)
  show ?thesis
  proof (cases "m < 0")
    case True
    then have "\<bar>v\<bar> = real_of_int (- m) * 2 powi e"
      unfolding v by (simp add: abs_mult)
    with assms(2) True have "0 \<le> - m" "real_of_int (- m) * 2 powi e < 10 ^ 21"
      by simp_all
    from toFixed_pos_shape [OF ratio_of_bound [OF this]]
    obtain ip fp where "toFixed_pos (ratio_of (- m) e) 5 = ip @ ascii ''.'' @ fp"
      "ip \<noteq> []" "length fp = 5" "list_all is_digit ip" "list_all is_digit fp"
      by blast
    with Fin True show ?thesis
      by (intro exI [of _ "ascii ''-''"] exI [of _ ip] exI [of _ fp]) simp
  next
    case False
    then have "\<bar>v\<bar> = real_of_int m * 2 powi e"
      unfolding v by (simp add: abs_mult)
    with assms(2) False have "0 \<le> m" "real_of_int m * 2 powi e < 10 ^ 21"
      by simp_all
    from toFixed_pos_shape [OF ratio_of_bound [OF this]]
    obtain ip fp where "toFixed_pos (ratio_of m e) 5 = ip @ ascii ''.'' @ fp"
      "ip \<noteq> []" "length fp = 5" "list_all is_digit ip" "list_all is_digit fp"
      by blast
    with Fin False show ?thesis
      by (intro exI [of _ "[]"] exI [of _ ip] exI [of _ fp]) simp
  qed
qed (use assms in \<open>simp_all add: num_value_def\<close>)

subsection \<open>Failure of the reverse lookup\<close>

text \<open>
  Claim C4, as stated, fails for the GPS flow: when the reverse lookup of a GPS position
  fails, \<open>fetchGpsLocation\<close> reports an error message and emits no location at all.
\<close>

theorem gps_reverse_failure_counterexample:
  "callbacks (run True [ClickGps True, GpsPosition (js_literal 252 1) (js_literal 553 1),
                        GpsReverseResponse (js_literal 252 1) (js_literal 553 1) NetworkFailure]) = [] \<and>
   confirmedAddress (run True [ClickGps True, GpsPosition (js_literal 252 1) (js_literal 553 1),
                        GpsReverseResponse (js_literal 252 1) (js_literal 553 1) NetworkFailure]) = [] \<and>
   error (run True [ClickGps True, GpsPosition (js_literal 252 1) (js_literal 553 1),
                        GpsReverseResponse (js_literal 252 1) (js_literal 553 1) NetworkFailure]) =
     Some (ascii ''Failed to get address. Please try again.'')"
  by (simp add: run_def searchEffect_def clearPending_def initial_def trim_def callbacks_def
      fetchGpsLocation_def gpsPosition_def gpsReverseDone_def)

text \<open>
  Claim C4, amended. When the reverse-geocode request of the map-pin flow fails (network
  failure, non-success response or unusable body), \<open>handlePinDrop\<close> still emits a location:
  its address is the coordinate pair, each number printed by \<open>toFixed(5)\<close>, separated by a
  comma and a space, and the error state is cleared. When the reverse-geocode request of
  the GPS flow fails, \<open>fetchGpsLocation\<close> emits nothing, leaves the confirmed address, and
  sets the message \<open>Failed to get address. Please try again.\<close>
\<close>

theorem reverse_failure_fallback:
  assumes "reverse_failed outcome"
  shows "callbacks (pinDropEnd cb lat lng outcome s) =
           callbacks s @ OnChange (Number_toFixed lat 5 @ ascii '', '' @ Number_toFixed lng 5) #
             (if cb then [OnLocationFetched
                \<lparr> address = Number_toFixed lat 5 @ ascii '', '' @ Number_toFixed lng 5,
                  latitude = Number_toString lat, longitude = Number_toString lng \<rparr>] else []) \<and>
         confirmedAddress (pinDropEnd cb lat lng outcome s) =
           Number_toFixed lat 5 @ ascii '', '' @ Number_toFixed lng 5 \<and>
         error (pinDropEnd cb lat lng outcome s) = None \<and>
         callbacks (gpsReverseDone cb lat lng outcome s) = callbacks s \<and>
         confirmedAddress (gpsReverseDone cb lat lng outcome s) = confirmedAddress s \<and>
         error (gpsReverseDone cb lat lng outcome s) =
           Some (ascii ''Failed to get address. Please try again.'')"
  using assms
  by (simp add: pinDropEnd_failed gpsReverseDone_failed callbacks_def notifyLocation_simps)

theorem reverse_failure_fallback_witness:
  "reverse_failed NonSuccess \<and>
   callbacks (pinDropEnd False (js_literal 252 1) (js_literal 553 1) NonSuccess (run False [])) =
     [OnChange (ascii ''25.20000, 55.30000'')] \<and>
   confirmedAddress (pinDropEnd False (js_literal 252 1) (js_literal 553 1) NonSuccess (run False [])) =
     ascii ''25.20000, 55.30000'' \<and>
   callbacks (gpsReverseDone False (js_literal 252 1) (js_literal 553 1) NonSuccess (run False [])) = [] \<and>
   error (gpsReverseDone False (js_literal 252 1) (js_literal 553 1) NonSuccess (run False [])) =
     Some (ascii ''Failed to get address. Please try again.'')"
  using reverse_failure_fallback [of NonSuccess False "js_literal 252 1" "js_literal 553 1" "run False []"]
  by (simp add: toFixed_25_2 toFixed_55_3 mounted initial_def callbacks_def ascii_def)

text \<open>
  Claim C5. If the reverse-geocode request of a pin drop at (25.2, 55.3) fails, the pin
  drop still emits, through \<open>onChange\<close> and \<open>onLocationFetched\<close>, the location with address
  \<open>25.20000, 55.30000\<close>, latitude \<open>25.2\<close> and longitude \<open>55.3\<close>, and confirms that address.
\<close>

theorem pin_drop_failure_emits_coordinates:
  assumes "reverse_failed outcome"
  shows "calls (handlePinDrop True (js_literal 252 1) (js_literal 553 1) outcome s) =
           calls s @
             [FetchReverse (js_literal 252 1) (js_literal 553 1),
              OnChange (ascii ''25.20000, 55.30000''),
              OnLocationFetched
                \<lparr> address = ascii ''25.20000, 55.30000'',
                  latitude = ascii ''25.2'', longitude = ascii ''55.3'' \<rparr>] \<and>
         confirmedAddress (handlePinDrop True (js_literal 252 1) (js_literal 553 1) outcome s) =
           ascii ''25.20000, 55.30000''"
  using assms
  by (simp add: handlePinDrop_def pinDropEnd_failed pinDropBegin_def notifyLocation_simps
      toFixed_25_2 toFixed_55_3 toString_25_2 toString_55_3 ascii_def)

theorem pin_drop_failure_emits_coordinates_witness:
  "reverse_failed NetworkFailure \<and>
   calls (handlePinDrop True (js_literal 252 1) (js_literal 553 1) NetworkFailure (run True [])) =
     [FetchReverse (js_literal 252 1) (js_literal 553 1),
      OnChange (ascii ''25.20000, 55.30000''),
      OnLocationFetched
        \<lparr> address = ascii ''25.20000, 55.30000'',
          latitude = ascii ''25.2'', longitude = ascii ''55.3'' \<rparr>]"
  using pin_drop_failure_emits_coordinates [of NetworkFailure "run True []"]
  by (simp add: mounted initial_def)

subsection \<open>Failures and the confirmed location\<close>

text \<open>
  Claim C8, as stated, fails: a failed reverse lookup in the map-pin flow replaces the
  confirmed address and invokes both upward callbacks. Here an address confirmed by a
  successful pin drop is replaced by a later pin drop whose lookup fails.
\<close>

theorem pin_failure_changes_confirmed_counterexample:
  "confirmedAddress (run True
      [PinDrop (js_literal 251972 4) (js_literal 552744 4),
       PinReverseResponse (js_literal 251972 4) (js_literal 552744 4)
         (Resolved \<lparr> display_name = ascii ''Burj Khalifa, Dubai'',
                     addr = \<lparr> amenity = Some (ascii ''Burj Khalifa''), road = None, suburb = None,
                              addr_city = Some (ascii ''Dubai''), addr_state = None,
                              addr_country = None \<rparr> \<rparr>)]) = ascii ''Burj Khalifa, Dubai'' \<and>
   confirmedAddress (run True
      [PinDrop (js_literal 251972 4) (js_literal 552744 4),
       PinReverseResponse (js_literal 251972 4) (js_literal 552744 4)
         (Resolved \<lparr> display_name = ascii ''Burj Khalifa, Dubai'',
                     addr = \<lparr> amenity = Some (ascii ''Burj Khalifa''), road = None, suburb = None,
                              addr_city = Some (ascii ''Dubai''), addr_state = None,
                              addr_country = None \<rparr> \<rparr>),
       PinDrop (js_literal 252 1) (js_literal 553 1),
       PinReverseResponse (js_literal 252 1) (js_literal 553 1) NetworkFailure]) =
     ascii ''25.20000, 55.30000''"
  by (simp add: run_def searchEffect_def clearPending_def initial_def trim_def
      pinDropBegin_def pinDropEnd_def notifyLocation_def reverseAddress_def push_if_def
      sanitiseAddress_def is_control_char_def is_js_whitespace_def
      toFixed_25_2 toFixed_55_3 ascii_def)

text \<open>
  Claim C8, amended. Every failure path other than a failed reverse lookup of the map-pin
  flow leaves the confirmed address unchanged and invokes no upward callback: the four
  device-location errors, a missing geolocation capability, a failed reverse lookup of
  the GPS flow, every outcome of the forward search, a query the timer callback cannot
  encode, and the selection of a feature with invalid coordinates. A device-location error
  with the code of a permission denial sets the permission-denied message.
\<close>

theorem failures_keep_confirmed_location:
  "confirmedAddress (gpsError code s) = confirmedAddress s \<and>
   callbacks (gpsError code s) = callbacks s \<and>
   error (gpsError code s) = Some (gpsErrorMessage code) \<and>
   gpsErrorMessage 1 =
     ascii ''Location permission denied. Please enable it in your browser settings.'' \<and>
   confirmedAddress (fetchGpsLocation False s) = confirmedAddress s \<and>
   callbacks (fetchGpsLocation False s) = callbacks s \<and>
   (reverse_failed outcome \<longrightarrow>
      confirmedAddress (gpsReverseDone cb lat lng outcome s) = confirmedAddress s \<and>
      callbacks (gpsReverseDone cb lat lng outcome s) = callbacks s) \<and>
   confirmedAddress (searchDone result s) = confirmedAddress s \<and>
   callbacks (searchDone result s) = callbacks s \<and>
   confirmedAddress (searchFire q s) = confirmedAddress s \<and>
   callbacks (searchFire q s) = callbacks s \<and>
   (\<not> isValidCoord (snd (coordinates (geometry feature))) (fst (coordinates (geometry feature))) \<longrightarrow>
      handleSearchSelect cb feature s = s)"
proof (intro conjI impI)
  assume "reverse_failed outcome"
  then show "confirmedAddress (gpsReverseDone cb lat lng outcome s) = confirmedAddress s"
    and "callbacks (gpsReverseDone cb lat lng outcome s) = callbacks s"
    by (simp_all add: gpsReverseDone_failed callbacks_def)
next
  assume "\<not> isValidCoord (snd (coordinates (geometry feature))) (fst (coordinates (geometry feature)))"
  then show "handleSearchSelect cb feature s = s"
    by (rule handleSearchSelect_invalid)
qed (simp_all add: gpsError_def gpsErrorMessage_def fetchGpsLocation_def searchDone_def
      searchFire_def callbacks_def Let_def)

text \<open>
  A location confirmed by a pin drop survives a denied GPS request, a failed GPS reverse
  lookup and the selection of a feature at latitude 91.
\<close>

theorem failures_keep_confirmed_location_witness:
  "reverse_failed Malformed \<and>
   \<not> isValidCoord (js_literal 91 0) (js_literal 553 1) \<and>
   confirmedAddress (gpsError 1 (handlePinDrop True (js_literal 252 1) (js_literal 553 1) NonSuccess (run True []))) =
     ascii ''25.20000, 55.30000'' \<and>
   error (gpsError 1 (handlePinDrop True (js_literal 252 1) (js_literal 553 1) NonSuccess (run True []))) =
     Some (ascii ''Location permission denied. Please enable it in your browser settings.'') \<and>
   confirmedAddress (gpsReverseDone True (js_literal 252 1) (js_literal 553 1) Malformed
      (handlePinDrop True (js_literal 252 1) (js_literal 553 1) NonSuccess (run True []))) =
     ascii ''25.20000, 55.30000'' \<and>
   handleSearchSelect True
      \<lparr> properties = \<lparr> name = Some (ascii ''Nowhere''), street = None, city = None, state = None,
                       country = None, postcode = None \<rparr>,
        geometry = \<lparr> coordinates = (js_literal 553 1, js_literal 91 0) \<rparr> \<rparr>
      (handlePinDrop True (js_literal 252 1) (js_literal 553 1) NonSuccess (run True [])) =
     handlePinDrop True (js_literal 252 1) (js_literal 553 1) NonSuccess (run True [])"
  using failures_keep_confirmed_location [where code = 1
      and s = "handlePinDrop True (js_literal 252 1) (js_literal 553 1) NonSuccess (run True [])"
      and outcome = Malformed and cb = True and lat = "js_literal 252 1" and lng = "js_literal 553 1"
      and feature =
        "\<lparr> properties = \<lparr> name = Some (ascii ''Nowhere''), street = None, city = None,
                            state = None, country = None, postcode = None \<rparr>,
           geometry = \<lparr> coordinates = (js_literal 553 1, js_literal 91 0) \<rparr> \<rparr>"]
    invalid_lat_91
  by (simp add: handlePinDrop_def pinDropEnd_failed pinDropBegin_def notifyLocation_simps
      toFixed_25_2 toFixed_55_3 ascii_def)

subsection \<open>Successful resolutions\<close>

text \<open>
  Claim C9. \<open>notifyLocation\<close> fires \<open>onChange\<close>, sets the confirmed address, fires
  \<open>onLocationFetched\<close> when that prop is given, and sets the error state to null. Every
  resolution goes through it and nothing sets an error after it: after the selection of a
  valid search result, after a pin drop (whatever the reverse lookup returned) and after a
  GPS position whose reverse lookup succeeded, no error message is displayed.
\<close>

theorem success_clears_error:
  "error (notifyLocation cb d s) = None \<and>
   confirmedAddress (notifyLocation cb d s) = address d \<and>
   calls (notifyLocation cb d s) =
     calls s @ OnChange (address d) # (if cb then [OnLocationFetched d] else []) \<and>
   (isValidCoord lat lng \<longrightarrow>
      error (handleSearchSelect cb \<lparr> properties = props, geometry = \<lparr> coordinates = (lng, lat) \<rparr> \<rparr> s) = None) \<and>
   error (pinDropEnd cb lat lng outcome s) = None \<and>
   error (handlePinDrop cb lat lng outcome s) = None \<and>
   error (gpsReverseDone cb lat lng (Resolved data) s) = None"
proof (intro conjI impI)
  assume "isValidCoord lat lng"
  then show "error (handleSearchSelect cb \<lparr> properties = props, geometry = \<lparr> coordinates = (lng, lat) \<rparr> \<rparr> s) = None"
    by (simp add: handleSearchSelect_valid afterRender_frame notifyLocation_simps)
next
  show "error (pinDropEnd cb lat lng outcome s) = None"
    by (cases outcome) (simp_all add: pinDropEnd_def notifyLocation_simps)
  show "error (handlePinDrop cb lat lng outcome s) = None"
    by (cases outcome) (simp_all add: handlePinDrop_def pinDropEnd_def notifyLocation_simps)
qed (simp_all add: notifyLocation_simps gpsReverseDone_def)

text \<open>
  A denied GPS request leaves its message on display; selecting a search result afterwards
  removes it.
\<close>

theorem success_clears_error_witness:
  "isValidCoord (js_literal 251972 4) (js_literal 552744 4) \<and>
   error (run True [ClickGps True, GpsError 1]) =
     Some (ascii ''Location permission denied. Please enable it in your browser settings.'') \<and>
   error (handleSearchSelect True
      \<lparr> properties = \<lparr> name = Some (ascii ''Burj Khalifa''), street = None,
                       city = Some (ascii ''Dubai''), state = None, country = None, postcode = None \<rparr>,
        geometry = \<lparr> coordinates = (js_literal 552744 4, js_literal 251972 4) \<rparr> \<rparr>
      (run True [ClickGps True, GpsError 1])) = None"
  using success_clears_error [where cb = True and s = "run True [ClickGps True, GpsError 1]"
      and lat = "js_literal 251972 4" and lng = "js_literal 552744 4"
      and props =
        "\<lparr> name = Some (ascii ''Burj Khalifa''), street = None,
           city = Some (ascii ''Dubai''), state = None, country = None, postcode = None \<rparr>"]
    valid_burj
  by (simp add: run_def searchEffect_def clearPending_def initial_def trim_def
      fetchGpsLocation_def gpsError_def gpsErrorMessage_def)

text \<open>
  Claim C10. A successful GPS resolution sets the map-pin coordinates \<open>mapLat\<close> and
  \<open>mapLng\<close> to the latitude and longitude the device reported. The search flow leaves the
  map-pin coordinates and the GPS loading flag as they are; the map-pin flow leaves the
  search query, the search results, the pending search timers and the GPS loading flag as
  they are.
\<close>

theorem gps_success_syncs_map_pin:
  "mapLat (gpsReverseDone cb lat lng (Resolved data) s) = Some lat \<and>
   mapLng (gpsReverseDone cb lat lng (Resolved data) s) = Some lng \<and>
   mapLat (handleSearchSelect cb feature s) = mapLat s \<and>
   mapLng (handleSearchSelect cb feature s) = mapLng s \<and>
   isLoading (handleSearchSelect cb feature s) = isLoading s \<and>
   searchQuery (handlePinDrop cb lat lng outcome s) = searchQuery s \<and>
   searchResults (handlePinDrop cb lat lng outcome s) = searchResults s \<and>
   timers (handlePinDrop cb lat lng outcome s) = timers s \<and>
   isLoading (handlePinDrop cb lat lng outcome s) = isLoading s"
proof (intro conjI)
  show "mapLat (handleSearchSelect cb feature s) = mapLat s"
    and "mapLng (handleSearchSelect cb feature s) = mapLng s"
    and "isLoading (handleSearchSelect cb feature s) = isLoading s"
    by (simp_all add: handleSearchSelect_def split_beta Let_def afterRender_frame notifyLocation_simps)
  show "searchQuery (handlePinDrop cb lat lng outcome s) = searchQuery s"
    and "searchResults (handlePinDrop cb lat lng outcome s) = searchResults s"
    and "timers (handlePinDrop cb lat lng outcome s) = timers s"
    and "isLoading (handlePinDrop cb lat lng outcome s) = isLoading s"
    by (cases outcome; simp add: handlePinDrop_def pinDropEnd_def pinDropBegin_def notifyLocation_simps)+
qed (simp_all add: gpsReverseDone_def)

text \<open>
  A GPS fix at (25.2, 55.3) with a resolved address: the map pin moves there, while a
  failed GPS reverse lookup leaves the map pin unset.
\<close>

theorem gps_success_syncs_map_pin_witness:
  "mapLat (run True [ClickGps True, GpsPosition (js_literal 252 1) (js_literal 553 1),
      GpsReverseResponse (js_literal 252 1) (js_literal 553 1)
        (Resolved \<lparr> display_name = ascii ''Dubai'',
                    addr = \<lparr> amenity = None, road = None, suburb = None, addr_city = None,
                             addr_state = None, addr_country = None \<rparr> \<rparr>)]) = Some (js_literal 252 1) \<and>
   mapLng (run True [ClickGps True, GpsPosition (js_literal 252 1) (js_literal 553 1),
      GpsReverseResponse (js_literal 252 1) (js_literal 553 1)
        (Resolved \<lparr> display_name = ascii ''Dubai'',
                    addr = \<lparr> amenity = None, road = None, suburb = None, addr_city = None,
                             addr_state = None, addr_country = None \<rparr> \<rparr>)]) = Some (js_literal 553 1) \<and>
   mapLat (run True [ClickGps True, GpsPosition (js_literal 252 1) (js_literal 553 1),
      GpsReverseResponse (js_literal 252 1) (js_literal 553 1) NonSuccess]) = None"
  using gps_success_syncs_map_pin [of True "js_literal 252 1" "js_literal 553 1"
      "\<lparr> display_name = ascii ''Dubai'',
         addr = \<lparr> amenity = None, road = None, suburb = None, addr_city = None,
                  addr_state = None, addr_country = None \<rparr> \<rparr>"
      "run True [ClickGps True, GpsPosition (js_literal 252 1) (js_literal 553 1)]"]
  by (simp add: run_def searchEffect_def clearPending_def initial_def trim_def
      fetchGpsLocation_def gpsPosition_def gpsReverseDone_def)

section \<open>Verification of the search debouncer\<close>

lemma pending_ok_cases:
  assumes "pending_ok s"
  obtains "timers s = []" "0 < nextTimerId s"
  | t where "timers s = [t]" "searchDebounceRef s = Some (timer_id t)" "timer_id t \<noteq> 0"
      "query t = searchQuery s" "2 \<le> length (trim (searchQuery s))" "0 < nextTimerId s"
  using assms by (auto simp: pending_ok_def split: list.splits)

text \<open>Under the invariant, clearing the referenced timer empties the timer table.\<close>

lemma clearPending_changed:
  assumes "pending_ok s"
  shows "clearPending (s\<lparr> searchQuery := q \<rparr>) = s\<lparr> searchQuery := q, timers := [] \<rparr>"
  using assms
  by (rule pending_ok_cases) (simp_all add: clearPending_def clearTimeout_def split: option.splits)

lemma clearPending_empty:
  "clearPending (s\<lparr> searchQuery := q, timers := [] \<rparr>) = s\<lparr> searchQuery := q, timers := [] \<rparr>"
  by (simp add: clearPending_def clearTimeout_def split: option.splits)

text \<open>What a keystroke does, by the length of the new query.\<close>

lemma type_long_query:
  assumes "pending_ok s" "q \<noteq> searchQuery s" "2 \<le> length (trim q)"
  shows "setSearchQuery q s =
           s\<lparr> searchQuery := q, searchDebounceRef := Some (nextTimerId s), hasCleanup := True,
              timers := [\<lparr> timer_id = nextTimerId s, due = now s + 300, query = q \<rparr>],
              nextTimerId := nextTimerId s + 1 \<rparr>"
  using assms(2,3)
  by (simp add: setSearchQuery_def afterRender_def searchCleanup_def searchEffect_def
      clearPending_changed [OF assms(1)] clearPending_empty setTimeout_def Let_def)

lemma type_short_query:
  assumes "pending_ok s" "q \<noteq> searchQuery s" "length (trim q) < 2"
  shows "setSearchQuery q s =
           s\<lparr> searchQuery := q, searchResults := [], hasCleanup := False, timers := [] \<rparr>"
  using assms(2,3)
  by (simp add: setSearchQuery_def afterRender_def searchCleanup_def searchEffect_def
      clearPending_changed [OF assms(1)] clearPending_empty Let_def)

lemma type_same_query: "setSearchQuery (searchQuery s) s = s"
  by (simp add: setSearchQuery_def afterRender_def)

lemma short_query_no_timer:
  assumes "pending_ok s" "length (trim (searchQuery s)) < 2"
  shows "timers s = []"
  using assms(1) by (rule pending_ok_cases) (use assms(2) in simp_all)

text \<open>The passing of time, by the state of the timer table.\<close>

lemma elapse_no_timer:
  assumes "timers s = []"
  shows "elapse d s = s\<lparr> now := now s + d \<rparr>"
  using assms by (simp add: elapse_def)

lemma elapse_one_timer:
  assumes "timers s = [t]"
  shows "elapse d s =
           (if due t \<le> now s + d then searchFire (query t) (s\<lparr> now := now s + d, timers := [] \<rparr>)
            else s\<lparr> now := now s + d \<rparr>)"
  using assms by (simp add: elapse_def)


text \<open>Every event keeps the invariant on the pending timer.\<close>

lemma pending_ok_frame:
  assumes "pending_ok s" "timers s' = timers s" "searchQuery s' = searchQuery s"
    "searchDebounceRef s' = searchDebounceRef s" "nextTimerId s' = nextTimerId s"
  shows "pending_ok s'"
  using assms(1) unfolding pending_ok_def assms(2-5) .

lemma pending_ok_setSearchQuery:
  assumes "pending_ok s"
  shows "pending_ok (setSearchQuery q s)"
proof (cases "q = searchQuery s")
  case True
  with assms show ?thesis by (simp add: type_same_query)
next
  case False
  show ?thesis
  proof (cases "length (trim q) < 2")
    case True
    with assms False show ?thesis
      by (simp add: type_short_query pending_ok_def)
  next
    case False
    with assms \<open>q \<noteq> searchQuery s\<close> show ?thesis
      by (simp add: type_long_query pending_ok_def)
  qed
qed

lemma pending_ok_elapse:
  assumes "pending_ok s"
  shows "pending_ok (elapse d s)"
  using assms
proof (rule pending_ok_cases)
  assume "timers s = []" "0 < nextTimerId s"
  then show ?thesis by (simp add: elapse_no_timer pending_ok_def)
next
  fix t
  assume t: "timers s = [t]" and "searchDebounceRef s = Some (timer_id t)" "timer_id t \<noteq> 0"
    "query t = searchQuery s" "2 \<le> length (trim (searchQuery s))" "0 < nextTimerId s"
  then show ?thesis
    by (simp add: elapse_one_timer [OF t] pending_ok_def searchFire_def Let_def)
qed

lemma pending_ok_handleSearchSelect:
  assumes "pending_ok s"
  shows "pending_ok (handleSearchSelect cb feature s)"
proof (cases "isValidCoord (snd (coordinates (geometry feature))) (fst (coordinates (geometry feature)))")
  case False
  with assms show ?thesis by (simp add: handleSearchSelect_def split_beta)
next
  case True
  let ?a = "buildReadableAddress (properties feature)"
  let ?d = "\<lparr> address = ?a,
              latitude = Number_toString (snd (coordinates (geometry feature))),
              longitude = Number_toString (fst (coordinates (geometry feature))) \<rparr>"
  let ?u = "\<lambda>s. notifyLocation cb ?d (s\<lparr> searchResults := [] \<rparr>)"
  have comm: "notifyLocation cb ?d (s\<lparr> searchQuery := ?a, searchResults := [] \<rparr>) = (?u s)\<lparr> searchQuery := ?a \<rparr>"
    by (simp add: notifyLocation_def)
  have same: "searchQuery (?u s) = searchQuery s"
    by (simp add: notifyLocation_def)
  have "handleSearchSelect cb feature s = setSearchQuery ?a (?u s)"
    using True by (simp add: handleSearchSelect_def split_beta Let_def comm setSearchQuery_def same)
  moreover have "pending_ok (?u s)"
    using assms by (rule pending_ok_frame) (simp_all add: notifyLocation_def)
  ultimately show ?thesis
    by (simp add: pending_ok_setSearchQuery)
qed

lemma pending_ok_step:
  assumes "pending_ok s"
  shows "pending_ok (step cb s e)"
proof (cases e)
  case (Elapse d)
  with assms show ?thesis by (simp add: pending_ok_elapse)
next
  case (TypeQuery q)
  with assms show ?thesis by (simp add: pending_ok_setSearchQuery)
next
  case (SelectResult i)
  with assms show ?thesis by (simp add: pending_ok_handleSearchSelect)
next
  case (PinReverseResponse lat lng outcome)
  from assms show ?thesis
    unfolding PinReverseResponse
    by (rule pending_ok_frame) (cases outcome; simp add: pinDropEnd_def notifyLocation_def)+
next
  case (GpsReverseResponse lat lng outcome)
  from assms show ?thesis
    unfolding GpsReverseResponse
    by (rule pending_ok_frame) (cases outcome; simp add: gpsReverseDone_def notifyLocation_def)+
next
  case (SearchResponse outcome)
  from assms show ?thesis
    unfolding SearchResponse by (rule pending_ok_frame) (simp_all add: searchDone_def)
next
  case (ClickTab tab)
  from assms show ?thesis
    unfolding ClickTab by (rule pending_ok_frame) (simp_all add: selectTab_def)
next
  case (PinDrop lat lng)
  from assms show ?thesis
    unfolding PinDrop by (rule pending_ok_frame) (simp_all add: pinDropBegin_def)
next
  case (ClickGps supported)
  from assms show ?thesis
    unfolding ClickGps by (rule pending_ok_frame) (simp_all add: fetchGpsLocation_def Let_def)
next
  case (GpsPosition lat lng)
  from assms show ?thesis
    unfolding GpsPosition by (rule pending_ok_frame) (simp_all add: gpsPosition_def)
next
  case (GpsError code)
  from assms show ?thesis
    unfolding GpsError by (rule pending_ok_frame) (simp_all add: gpsError_def)
qed

lemma pending_ok_mounted: "pending_ok (searchEffect initial)"
  by (simp add: searchEffect_def clearPending_def initial_def trim_def pending_ok_def)

lemma pending_ok_foldl:
  assumes "pending_ok s"
  shows "pending_ok (foldl (step cb) s events)"
  using assms by (induction events arbitrary: s) (simp_all add: pending_ok_step)

lemma pending_ok_run: "pending_ok (run cb events)"
  unfolding run_def using pending_ok_mounted by (rule pending_ok_foldl)


text \<open>Every event keeps the invariant on the requests issued.\<close>

lemma setSearchQuery_calls: "calls (setSearchQuery q s) = calls s"
  by (simp add: setSearchQuery_def afterRender_def searchCleanup_def searchEffect_def setTimeout_def
      clearPending_def clearTimeout_def Let_def split: option.splits)

lemma handleSearchSelect_calls:
  "\<exists>es. calls (handleSearchSelect cb feature s) = calls s @ es \<and> list_all search_call_ok es"
proof (cases "isValidCoord (snd (coordinates (geometry feature))) (fst (coordinates (geometry feature)))")
  case False
  then have "calls (handleSearchSelect cb feature s) = calls s @ []"
    by (simp add: handleSearchSelect_def split_beta)
  then show ?thesis by (intro exI [of _ "[]"]) simp
next
  case True
  then have "calls (handleSearchSelect cb feature s) =
    calls s @ OnChange (buildReadableAddress (properties feature)) #
      (if cb then [OnLocationFetched \<lparr> address = buildReadableAddress (properties feature),
              latitude = Number_toString (snd (coordinates (geometry feature))),
              longitude = Number_toString (fst (coordinates (geometry feature))) \<rparr>] else [])"
    by (simp add: handleSearchSelect_def split_beta Let_def afterRender_def searchCleanup_def
        searchEffect_def setTimeout_def clearPending_def clearTimeout_def notifyLocation_def
        split: option.splits)
  then show ?thesis by auto
qed

lemma calls_ok_elapse:
  assumes "pending_ok s" "calls_ok s"
  shows "calls_ok (elapse d s)"
  using assms(1)
proof (rule pending_ok_cases)
  assume "timers s = []"
  with assms(2) show ?thesis by (simp add: elapse_no_timer calls_ok_def)
next
  fix t
  assume t: "timers s = [t]" and "query t = searchQuery s" "2 \<le> length (trim (searchQuery s))"
  with assms(2) show ?thesis
    by (simp add: elapse_one_timer [OF t] calls_ok_def searchFire_def Let_def)
qed

lemma calls_ok_step:
  assumes "pending_ok s" "calls_ok s"
  shows "calls_ok (step cb s e)"
proof (cases e)
  case (Elapse d)
  with assms show ?thesis by (simp add: calls_ok_elapse)
next
  case (TypeQuery q)
  with assms(2) show ?thesis by (simp add: calls_ok_def setSearchQuery_calls)
next
  case (SelectResult i)
  from handleSearchSelect_calls [of cb "searchResults s ! i" s] assms(2) SelectResult
  show ?thesis by (auto simp: calls_ok_def)
next
  case (PinReverseResponse lat lng outcome)
  with assms(2) show ?thesis
    by (cases outcome) (simp_all add: calls_ok_def pinDropEnd_def notifyLocation_def)
next
  case (GpsReverseResponse lat lng outcome)
  with assms(2) show ?thesis
    by (cases outcome) (simp_all add: calls_ok_def gpsReverseDone_def notifyLocation_def)
qed (use assms(2) in \<open>simp_all add: calls_ok_def searchDone_def selectTab_def pinDropBegin_def
      fetchGpsLocation_def gpsPosition_def gpsError_def Let_def\<close>)

lemma invariants_foldl:
  assumes "pending_ok s" "calls_ok s"
  shows "pending_ok (foldl (step cb) s events) \<and> calls_ok (foldl (step cb) s events)"
  using assms by (induction events arbitrary: s) (simp_all add: pending_ok_step calls_ok_step)

lemma calls_ok_run: "calls_ok (run cb events)"
proof -
  have "calls_ok (searchEffect initial)"
    by (simp add: searchEffect_def clearPending_def initial_def trim_def calls_ok_def)
  with pending_ok_mounted show ?thesis
    unfolding run_def by (simp add: invariants_foldl)
qed

lemma run_snoc: "run cb (events @ [e]) = step cb (run cb events) e"
  by (simp add: run_def)

lemma run_append: "run cb (events @ rest) = foldl (step cb) (run cb events) rest"
  by (simp add: run_def)

text \<open>
  Claim C7. A query whose trimmed length is below 2 is never searched: in no run of the
  component is a Photon request issued for it. When such a query replaces the current one,
  the result set is empty and no timer is pending as soon as the effect has run, with no
  time passing, and no request has been issued by then.
\<close>

theorem short_query_never_searched:
  assumes "length (trim q) < 2"
  shows "FetchSearch q \<notin> set (calls (run cb events)) \<and>
         (q \<noteq> searchQuery (run cb events) \<longrightarrow>
            searchResults (run cb (events @ [TypeQuery q])) = [] \<and>
            timers (run cb (events @ [TypeQuery q])) = [] \<and>
            calls (run cb (events @ [TypeQuery q])) = calls (run cb events)) \<and>
         (q \<noteq> searchQuery s \<longrightarrow> searchResults (setSearchQuery q s) = [])"
proof (intro conjI impI)
  show "FetchSearch q \<notin> set (calls (run cb events))"
  proof
    assume "FetchSearch q \<in> set (calls (run cb events))"
    with calls_ok_run [of cb events] have "search_call_ok (FetchSearch q)"
      unfolding calls_ok_def list_all_iff by blast
    with assms show False by simp
  qed
next
  assume new: "q \<noteq> searchQuery (run cb events)"
  have "run cb (events @ [TypeQuery q]) =
        (run cb events)\<lparr> searchQuery := q, searchResults := [], hasCleanup := False, timers := [] \<rparr>"
    using pending_ok_run new assms by (simp add: run_snoc type_short_query)
  then show "searchResults (run cb (events @ [TypeQuery q])) = []"
    and "timers (run cb (events @ [TypeQuery q])) = []"
    and "calls (run cb (events @ [TypeQuery q])) = calls (run cb events)"
    by simp_all
next
  assume "q \<noteq> searchQuery s"
  with assms show "searchResults (setSearchQuery q s) = []"
    by (simp add: setSearchQuery_def afterRender_def searchEffect_def Let_def
        searchCleanup_def clearPending_def clearTimeout_def split: option.splits)
qed


lemma trim_abc:
  "trim (ascii ''a'') = ascii ''a''" "trim (ascii ''ab'') = ascii ''ab''"
  "trim (ascii ''abc'') = ascii ''abc''"
  by (simp_all add: trim_def ascii_def is_js_whitespace_def)

lemma keystroke_then_wait:
  assumes "pending_ok s" "q \<noteq> searchQuery s" "2 \<le> length (trim q)" "d < 300"
  shows "pending_ok (elapse d (setSearchQuery q s))"
    and "searchQuery (elapse d (setSearchQuery q s)) = q"
    and "calls (elapse d (setSearchQuery q s)) = calls s"
    and "now (elapse d (setSearchQuery q s)) = now s + d"
proof -
  let ?t = "\<lparr> timer_id = nextTimerId s, due = now s + 300, query = q \<rparr>"
  have typed: "setSearchQuery q s =
           s\<lparr> searchQuery := q, searchDebounceRef := Some (nextTimerId s), hasCleanup := True,
              timers := [?t], nextTimerId := nextTimerId s + 1 \<rparr>"
    using assms(1-3) by (rule type_long_query)
  have "timers (setSearchQuery q s) = [?t]"
    by (simp add: typed)
  from elapse_one_timer [OF this, of d] assms(4)
  have waited: "elapse d (setSearchQuery q s) = (setSearchQuery q s)\<lparr> now := now s + d \<rparr>"
    by (simp add: typed)
  have "pending_ok (setSearchQuery q s)"
    using assms(1) by (rule pending_ok_setSearchQuery)
  then show "pending_ok (elapse d (setSearchQuery q s))"
    by (rule pending_ok_elapse)
  show "searchQuery (elapse d (setSearchQuery q s)) = q"
    and "calls (elapse d (setSearchQuery q s)) = calls s"
    and "now (elapse d (setSearchQuery q s)) = now s + d"
    unfolding waited by (simp_all add: typed)
qed

lemma keystroke_then_fire:
  assumes "pending_ok s" "q \<noteq> searchQuery s" "2 \<le> length (trim q)" "well_formed_utf16 q"
  shows "calls (elapse d (setSearchQuery q s)) = calls s @ (if 300 \<le> d then [FetchSearch q] else [])"
proof -
  let ?t = "\<lparr> timer_id = nextTimerId s, due = now s + 300, query = q \<rparr>"
  have typed: "setSearchQuery q s =
           s\<lparr> searchQuery := q, searchDebounceRef := Some (nextTimerId s), hasCleanup := True,
              timers := [?t], nextTimerId := nextTimerId s + 1 \<rparr>"
    using assms(1-3) by (rule type_long_query)
  have "timers (setSearchQuery q s) = [?t]"
    by (simp add: typed)
  from elapse_one_timer [OF this, of d] assms(4)
  show ?thesis
    by (simp add: typed searchFire_def Let_def)
qed

lemma short_keystroke_then_wait:
  assumes "pending_ok s" "length (trim q) < 2"
  shows "pending_ok (elapse d (setSearchQuery q s))"
    and "searchQuery (elapse d (setSearchQuery q s)) = q"
    and "calls (elapse d (setSearchQuery q s)) = calls s"
proof -
  have ok: "pending_ok (setSearchQuery q s)"
    using assms(1) by (rule pending_ok_setSearchQuery)
  have q: "searchQuery (setSearchQuery q s) = q"
    by (cases "q = searchQuery s") (simp_all add: type_same_query type_short_query assms)
  with ok assms(2) have "timers (setSearchQuery q s) = []"
    by (simp add: short_query_no_timer)
  then have waited: "elapse d (setSearchQuery q s) = (setSearchQuery q s)\<lparr> now := now (setSearchQuery q s) + d \<rparr>"
    by (rule elapse_no_timer)
  from ok show "pending_ok (elapse d (setSearchQuery q s))"
    by (rule pending_ok_elapse)
  show "searchQuery (elapse d (setSearchQuery q s)) = q"
    and "calls (elapse d (setSearchQuery q s)) = calls s"
    unfolding waited by (simp_all add: q setSearchQuery_calls)
qed

text \<open>
  Claim C6. In any run of the component, when \<open>a\<close>, \<open>ab\<close> and \<open>abc\<close> are typed with
  less than 300 ms between successive keystrokes, the three keystrokes issue at most one
  Photon request: none before 300 ms have passed since the last keystroke, and then exactly
  one, for \<open>abc\<close>. Each keystroke that changes the query to one of at least two
  characters leaves exactly one pending timer, due 300 ms later, for the new query.
\<close>

theorem debounce_abc:
  assumes "d1 < 300" "d2 < 300"
  shows "search_calls (run cb (events @
           [TypeQuery (ascii ''a''), Elapse d1, TypeQuery (ascii ''ab''), Elapse d2,
            TypeQuery (ascii ''abc''), Elapse d3])) =
         search_calls (run cb events) @ (if 300 \<le> d3 then [FetchSearch (ascii ''abc'')] else []) \<and>
         (q \<noteq> searchQuery (run cb events) \<and> 2 \<le> length (trim q) \<longrightarrow>
            timers (run cb (events @ [TypeQuery q])) =
              [\<lparr> timer_id = nextTimerId (run cb events), due = now (run cb events) + 300, query = q \<rparr>])"
proof (intro conjI impI)
  assume "q \<noteq> searchQuery (run cb events) \<and> 2 \<le> length (trim q)"
  with pending_ok_run [of cb events]
  show "timers (run cb (events @ [TypeQuery q])) =
          [\<lparr> timer_id = nextTimerId (run cb events), due = now (run cb events) + 300, query = q \<rparr>]"
    by (simp add: run_snoc type_long_query)
next
  define s0 where "s0 = run cb events"
  define s1 where "s1 = elapse d1 (setSearchQuery (ascii ''a'') s0)"
  define s2 where "s2 = elapse d2 (setSearchQuery (ascii ''ab'') s1)"
  define s3 where "s3 = elapse d3 (setSearchQuery (ascii ''abc'') s2)"
  have final: "run cb (events @
           [TypeQuery (ascii ''a''), Elapse d1, TypeQuery (ascii ''ab''), Elapse d2,
            TypeQuery (ascii ''abc''), Elapse d3]) = s3"
    by (simp add: run_append s0_def s1_def s2_def s3_def)
  have ok0: "pending_ok s0"
    unfolding s0_def by (rule pending_ok_run)
  have a: "length (trim (ascii ''a'')) < 2"
    by (simp add: trim_abc) (simp add: ascii_def)
  have ok1: "pending_ok s1" and q1: "searchQuery s1 = ascii ''a''" and c1: "calls s1 = calls s0"
    unfolding s1_def using short_keystroke_then_wait [OF ok0 a] by simp_all
  have ab: "ascii ''ab'' \<noteq> searchQuery s1" "2 \<le> length (trim (ascii ''ab''))"
    by (simp_all add: q1 trim_abc) (simp_all add: ascii_def)
  have ok2: "pending_ok s2" and q2: "searchQuery s2 = ascii ''ab''" and c2: "calls s2 = calls s1"
    unfolding s2_def using keystroke_then_wait [OF ok1 ab assms(2)] by simp_all
  have abc: "ascii ''abc'' \<noteq> searchQuery s2" "2 \<le> length (trim (ascii ''abc''))"
    "well_formed_utf16 (ascii ''abc'')"
    by (simp_all add: q2 trim_abc) (simp_all add: ascii_def)
  have "calls s3 = calls s2 @ (if 300 \<le> d3 then [FetchSearch (ascii ''abc'')] else [])"
    unfolding s3_def using ok2 abc by (rule keystroke_then_fire)
  then show "search_calls (run cb (events @
           [TypeQuery (ascii ''a''), Elapse d1, TypeQuery (ascii ''ab''), Elapse d2,
            TypeQuery (ascii ''abc''), Elapse d3])) =
         search_calls (run cb events) @ (if 300 \<le> d3 then [FetchSearch (ascii ''abc'')] else [])"
    unfolding final by (simp add: search_calls_def c2 c1 s0_def)
qed

text \<open>Keystrokes at 0, 100 and 350 ms, observed at 650 ms and at 649 ms.\<close>

theorem debounce_abc_witness:
  "(100::nat) < 300 \<and> (250::nat) < 300 \<and>
   ascii ''ab'' \<noteq> searchQuery (run True []) \<and> 2 \<le> length (trim (ascii ''ab'')) \<and>
   timers (run True [TypeQuery (ascii ''ab'')]) = [\<lparr> timer_id = 1, due = 300, query = ascii ''ab'' \<rparr>] \<and>
   search_calls (run True
     [TypeQuery (ascii ''a''), Elapse 100, TypeQuery (ascii ''ab''), Elapse 250,
      TypeQuery (ascii ''abc''), Elapse 300]) = [FetchSearch (ascii ''abc'')] \<and>
   search_calls (run True
     [TypeQuery (ascii ''a''), Elapse 100, TypeQuery (ascii ''ab''), Elapse 250,
      TypeQuery (ascii ''abc''), Elapse 299]) = []"
  using debounce_abc [of 100 250 True "[]" 300 "ascii ''ab''"]
    debounce_abc [of 100 250 True "[]" 299 "ascii ''ab''"]
  by (simp add: search_calls_def mounted initial_def trim_abc) (simp add: ascii_def)

text \<open>
  \<open>ab\<close> is typed and, 100 ms later, replaced by an \<open>a\<close> between two spaces: the
  pending timer is gone at once.
\<close>

theorem short_query_never_searched_witness:
  "length (trim (ascii '' a '')) < 2 \<and>
   FetchSearch (ascii '' a '') \<notin> set (calls (run True
     [TypeQuery (ascii ''ab''), Elapse 300, SearchResponse (SearchOk (Some [])), TypeQuery (ascii ''a''), Elapse 1000])) \<and>
   ascii '' a '' \<noteq> searchQuery (run True [TypeQuery (ascii ''ab''), Elapse 100]) \<and>
   timers (run True [TypeQuery (ascii ''ab''), Elapse 100]) \<noteq> [] \<and>
   timers (run True [TypeQuery (ascii ''ab''), Elapse 100, TypeQuery (ascii '' a '')]) = [] \<and>
   searchResults (run True [TypeQuery (ascii ''ab''), Elapse 100, TypeQuery (ascii '' a '')]) = []"
proof -
  have short: "length (trim (ascii '' a '')) < 2"
    by (simp add: trim_def ascii_def is_js_whitespace_def)
  have state: "run True [TypeQuery (ascii ''ab''), Elapse 100] =
    initial\<lparr> searchQuery := ascii ''ab'', searchDebounceRef := Some 1, hasCleanup := True,
              timers := [\<lparr> timer_id = 1, due = 300, query = ascii ''ab'' \<rparr>], nextTimerId := 2,
              now := 100 \<rparr>"
    by (simp add: run_def searchEffect_def clearPending_def initial_def trim_def ascii_def
        is_js_whitespace_def setSearchQuery_def afterRender_def searchCleanup_def setTimeout_def
        elapse_def)
  from short
    short_query_never_searched [OF short, of True
      "[TypeQuery (ascii ''ab''), Elapse 300, SearchResponse (SearchOk (Some [])), TypeQuery (ascii ''a''), Elapse 1000]"]
    short_query_never_searched [OF short, of True "[TypeQuery (ascii ''ab''), Elapse 100]"]
  show ?thesis
    by (simp add: state) (simp add: ascii_def initial_def)
qed

end
